theory Spec2Isabelle
  imports Main
begin

section \<open>Zentry Cloud: the VM tables, the credit ledger and their triggers\<close>

text \<open>
  The storage layer of the repository is the PostgreSQL schema of
  \<^verbatim>\<open>backend/migrations/001_initial_schema.sql\<close>,
  \<^verbatim>\<open>002_add_indexes_and_constraints.sql\<close> and the audit migration
  (\<^verbatim>\<open>003_add_audit_and_logging.sql\<close>). This theory embeds the tables
  \<^verbatim>\<open>users\<close>, \<^verbatim>\<open>projects\<close>, \<^verbatim>\<open>vms\<close>,
  \<^verbatim>\<open>billing_records\<close> and \<^verbatim>\<open>vm_state_transitions\<close>, their column
  types, defaults, constraints and triggers, and the two dashboard functions of the
  front end that the ledger and the lifecycle are shown through.

  Conventions. A \<^verbatim>\<open>UUID\<close> is a natural number. A timestamp is an integer.
  A \<^verbatim>\<open>DECIMAL(p,s)\<close> value is the integer count of its last digit: a
  \<^verbatim>\<open>DECIMAL(10,2)\<close> column holds hundredths, a \<^verbatim>\<open>DECIMAL(10,4)\<close> or
  \<^verbatim>\<open>DECIMAL(6,4)\<close> column holds ten-thousandths, and the value fits the column
  when its magnitude is below \<open>10 ^ p\<close>. A nullable column is an \<open>option\<close>
  (\<open>None\<close> is \<^verbatim>\<open>NULL\<close>); a \<^verbatim>\<open>NOT NULL\<close> column is not. A string is a
  list of one-byte characters, so \<^verbatim>\<open>VARCHAR(n)\<close> lengths are exact for ASCII text.
  A statement that raises leaves the database as it was: an operation returns either the
  error or the new database.
\<close>

subsection \<open>Errors\<close>

datatype db_error =
    CheckViolation string
  | UniqueViolation string
  | ForeignKeyViolation string
  | NumericOverflow
  | StringTooLong

subsection \<open>Column types\<close>

text \<open>
  PostgreSQL rounds a \<^verbatim>\<open>numeric\<close> to the scale of its target column half away
  from zero. \<open>round_half_away n d\<close> is \<open>n / d\<close> rounded so, for a positive \<open>d\<close>.
\<close>

definition round_half_away :: "int \<Rightarrow> int \<Rightarrow> int" where
  "round_half_away n d =
     (if 0 \<le> n then (2 * n + d) div (2 * d) else - ((2 * (- n) + d) div (2 * d)))"

definition numeric_fits :: "nat \<Rightarrow> int \<Rightarrow> bool" where
  "numeric_fits p v = (\<bar>v\<bar> < 10 ^ p)"

definition null_or :: "('a \<Rightarrow> bool) \<Rightarrow> 'a option \<Rightarrow> bool" where
  "null_or P v = (case v of None \<Rightarrow> True | Some x \<Rightarrow> P x)"

text \<open>
  \<^verbatim>\<open>VARCHAR(n)\<close>: a longer string is an error, unless the excess characters are all
  spaces, in which case it is truncated to \<open>n\<close> characters.
\<close>

definition varchar :: "nat \<Rightarrow> string \<Rightarrow> string option" where
  "varchar n s =
     (if length s \<le> n then Some s
      else if list_all (\<lambda>c. c = CHR '' '') (drop n s) then Some (take n s)
      else None)"

text \<open>A column of an \<^verbatim>\<open>INSERT\<close> is either left out, and takes its default, or given.\<close>

datatype 'a column = Default | Value 'a

definition column_or :: "'a \<Rightarrow> 'a column \<Rightarrow> 'a" where
  "column_or d c = (case c of Default \<Rightarrow> d | Value v \<Rightarrow> v)"

subsection \<open>Tables\<close>

record user_row =
  user_id :: nat
  email :: string
  user_name :: string
  hashed_password :: string
  credits :: "int option"
  total_spent :: "int option"
  is_active :: "bool option"
  user_created_at :: "int option"
  user_updated_at :: "int option"
  last_login :: "int option"

record project_row =
  project_id :: nat
  project_name :: string
  project_description :: "string option"
  project_user_id :: nat
  project_created_at :: "int option"
  project_updated_at :: "int option"

record vm_row =
  vm_id :: nat
  vm_name :: string
  instance_type :: string
  vm_image :: string
  status :: string
  ip_address :: "string option"
  vm_user_id :: nat
  vm_project_id :: nat
  cost_per_hour :: int
  uptime_hours :: "int option"
  total_cost :: "int option"
  vm_created_at :: "int option"
  vm_updated_at :: "int option"
  last_started :: "int option"
  last_stopped :: "int option"

record billing_row =
  billing_id :: nat
  billing_user_id :: nat
  billing_vm_id :: "nat option"
  action_type :: string
  amount :: int
  description :: "string option"
  billing_created_at :: "int option"

text \<open>
  A row of \<^verbatim>\<open>vm_state_transitions\<close>; its generated id and the unused
  \<^verbatim>\<open>triggered_by\<close> column are left out.
\<close>

record transition_row =
  transition_vm_id :: nat
  from_status :: "string option"
  to_status :: string
  transition_reason :: "string option"
  transition_created_at :: "int option"

record db =
  users :: "user_row list"
  projects :: "project_row list"
  vms :: "vm_row list"
  billing_records :: "billing_row list"
  vm_state_transitions :: "transition_row list"

text \<open>
  \<^verbatim>\<open>SELECT ... WHERE id = k\<close> and \<^verbatim>\<open>UPDATE ... WHERE id = k\<close> on a table
  kept as the list of its rows.
\<close>

definition select_by :: "('r \<Rightarrow> nat) \<Rightarrow> nat \<Rightarrow> 'r list \<Rightarrow> 'r option" where
  "select_by key k rows = find (\<lambda>r. key r = k) rows"

definition replace_by :: "('r \<Rightarrow> nat) \<Rightarrow> nat \<Rightarrow> 'r \<Rightarrow> 'r list \<Rightarrow> 'r list" where
  "replace_by key k new rows = map (\<lambda>r. if key r = k then new else r) rows"

subsection \<open>The users table\<close>

text \<open>
  Column types of \<^verbatim>\<open>users\<close>: \<^verbatim>\<open>email VARCHAR(255)\<close>,
  \<^verbatim>\<open>name VARCHAR(100)\<close>, \<^verbatim>\<open>hashed_password VARCHAR(255)\<close>,
  \<^verbatim>\<open>credits DECIMAL(10,2)\<close>, \<^verbatim>\<open>total_spent DECIMAL(10,2)\<close>.
\<close>

definition users_coerce :: "user_row \<Rightarrow> db_error + user_row" where
  "users_coerce r =
     (case (varchar 255 (email r), varchar 100 (user_name r), varchar 255 (hashed_password r)) of
        (Some e, Some n, Some h) \<Rightarrow>
          if null_or (numeric_fits 10) (credits r) \<and> null_or (numeric_fits 10) (total_spent r)
          then Inr (r\<lparr>email := e, user_name := n, hashed_password := h\<rparr>)
          else Inl NumericOverflow
      | _ \<Rightarrow> Inl StringTooLong)"

text \<open>
  \<^verbatim>\<open>chk_users_credits_positive CHECK (credits >= 0)\<close> and
  \<^verbatim>\<open>chk_users_total_spent_positive CHECK (total_spent >= 0)\<close>; a
  \<^verbatim>\<open>CHECK\<close> passes on \<^verbatim>\<open>NULL\<close>.
\<close>

definition users_check :: "user_row \<Rightarrow> db_error option" where
  "users_check r =
     (if \<not> null_or (\<lambda>c. 0 \<le> c) (credits r) then Some (CheckViolation ''chk_users_credits_positive'')
      else if \<not> null_or (\<lambda>t. 0 \<le> t) (total_spent r)
        then Some (CheckViolation ''chk_users_total_spent_positive'')
      else None)"

text \<open>
  \<^verbatim>\<open>update_updated_at_column()\<close>, the \<^verbatim>\<open>BEFORE UPDATE\<close> trigger of
  \<^verbatim>\<open>users\<close> and \<^verbatim>\<open>vms\<close>: \<^verbatim>\<open>NEW.updated_at = CURRENT_TIMESTAMP\<close>.
\<close>

definition update_users_updated_at :: "int \<Rightarrow> user_row \<Rightarrow> user_row" where
  "update_users_updated_at now new = new\<lparr>user_updated_at := Some now\<rparr>"

record new_user =
  nu_id :: nat
  nu_email :: string
  nu_name :: string
  nu_hashed_password :: string
  nu_credits :: "int option column"
  nu_total_spent :: "int option column"
  nu_is_active :: "bool option column"
  nu_created_at :: "int option column"
  nu_updated_at :: "int option column"
  nu_last_login :: "int option"

text \<open>
  \<^verbatim>\<open>INSERT INTO users\<close>: the defaults \<^verbatim>\<open>credits DEFAULT 50.00\<close>,
  \<^verbatim>\<open>total_spent DEFAULT 0.00\<close>, \<^verbatim>\<open>is_active DEFAULT true\<close>,
  \<^verbatim>\<open>created_at\<close> and \<^verbatim>\<open>updated_at DEFAULT CURRENT_TIMESTAMP\<close>; then the
  column types, the checks, the primary key and \<^verbatim>\<open>email UNIQUE\<close>.
\<close>

definition users_defaults :: "int \<Rightarrow> new_user \<Rightarrow> user_row" where
  "users_defaults now n =
     \<lparr>user_id = nu_id n, email = nu_email n, user_name = nu_name n,
      hashed_password = nu_hashed_password n,
      credits = column_or (Some 5000) (nu_credits n),
      total_spent = column_or (Some 0) (nu_total_spent n),
      is_active = column_or (Some True) (nu_is_active n),
      user_created_at = column_or (Some now) (nu_created_at n),
      user_updated_at = column_or (Some now) (nu_updated_at n),
      last_login = nu_last_login n\<rparr>"

definition insert_users :: "db \<Rightarrow> new_user \<Rightarrow> int \<Rightarrow> db_error + db" where
  "insert_users d n now =
     (case users_coerce (users_defaults now n) of
        Inl e \<Rightarrow> Inl e
      | Inr r \<Rightarrow>
          (case users_check r of
             Some e \<Rightarrow> Inl e
           | None \<Rightarrow>
               if select_by user_id (user_id r) (users d) \<noteq> None
               then Inl (UniqueViolation ''users_pkey'')
               else if email r \<in> set (map email (users d))
               then Inl (UniqueViolation ''users_email_key'')
               else Inr (d\<lparr>users := users d @ [r]\<rparr>)))"

text \<open>
  \<^verbatim>\<open>UPDATE users SET ... WHERE id = uid\<close>. The \<^verbatim>\<open>SET\<close> list is the function
  \<open>upd\<close> from the old row to the new one (it never assigns the primary key). The
  unique index on the email is consulted when the update changes the email. No row with
  that id: nothing is updated, and nothing is raised.
\<close>

definition update_users :: "db \<Rightarrow> nat \<Rightarrow> (user_row \<Rightarrow> user_row) \<Rightarrow> int \<Rightarrow> db_error + db" where
  "update_users d uid upd now =
     (case select_by user_id uid (users d) of
        None \<Rightarrow> Inr d
      | Some old \<Rightarrow>
          (case users_coerce ((upd old)\<lparr>user_id := uid\<rparr>) of
             Inl e \<Rightarrow> Inl e
           | Inr new0 \<Rightarrow>
               (let new = update_users_updated_at now new0 in
                case users_check new of
                  Some e \<Rightarrow> Inl e
                | None \<Rightarrow>
                    if email new \<noteq> email old
                       \<and> list_ex (\<lambda>r. user_id r \<noteq> uid \<and> email r = email new) (users d)
                    then Inl (UniqueViolation ''users_email_key'')
                    else Inr (d\<lparr>users := replace_by user_id uid new (users d)\<rparr>))))"

subsection \<open>The projects table\<close>

record new_project =
  np_id :: nat
  np_name :: string
  np_description :: "string option"
  np_user_id :: nat
  np_created_at :: "int option column"
  np_updated_at :: "int option column"

text \<open>
  \<^verbatim>\<open>INSERT INTO projects\<close>: \<^verbatim>\<open>name VARCHAR(100) NOT NULL\<close>, the primary
  key and the foreign key to \<^verbatim>\<open>users\<close>.
\<close>

definition insert_projects :: "db \<Rightarrow> new_project \<Rightarrow> int \<Rightarrow> db_error + db" where
  "insert_projects d n now =
     (case varchar 100 (np_name n) of
        None \<Rightarrow> Inl StringTooLong
      | Some nm \<Rightarrow>
          if select_by project_id (np_id n) (projects d) \<noteq> None
            then Inl (UniqueViolation ''projects_pkey'')
          else if select_by user_id (np_user_id n) (users d) = None
            then Inl (ForeignKeyViolation ''projects_user_id_fkey'')
          else Inr (d\<lparr>projects := projects d @
                 [\<lparr>project_id = np_id n, project_name = nm,
                   project_description = np_description n, project_user_id = np_user_id n,
                   project_created_at = column_or (Some now) (np_created_at n),
                   project_updated_at = column_or (Some now) (np_updated_at n)\<rparr>]\<rparr>))"

subsection \<open>The billing_records table and its trigger\<close>

record new_billing =
  nb_id :: nat
  nb_user_id :: nat
  nb_vm_id :: "nat option"
  nb_action_type :: string
  nb_amount :: int
  nb_description :: "string option"
  nb_created_at :: "int option column"

datatype tg_op = INSERT | UPDATE | DELETE

text \<open>
  \<^verbatim>\<open>update_user_spending()\<close>:
  \<^verbatim>\<open>IF TG_OP = 'INSERT' AND NEW.amount > 0 THEN
       UPDATE users SET total_spent = total_spent + NEW.amount WHERE id = NEW.user_id;\<close>
  The sum of a \<^verbatim>\<open>DECIMAL(10,2)\<close> and a \<^verbatim>\<open>DECIMAL(10,4)\<close> has four
  decimals and is rounded to the two of \<^verbatim>\<open>total_spent\<close>; \<^verbatim>\<open>NULL\<close> plus
  anything is \<^verbatim>\<open>NULL\<close>. The \<^verbatim>\<open>UPDATE\<close> is an update of \<^verbatim>\<open>users\<close> like
  any other: its trigger and its checks run.
\<close>

definition add_amount :: "int \<Rightarrow> user_row \<Rightarrow> user_row" where
  "add_amount a u =
     u\<lparr>total_spent := map_option (\<lambda>t. round_half_away (100 * t + a) 100) (total_spent u)\<rparr>"

definition update_user_spending :: "tg_op \<Rightarrow> billing_row \<Rightarrow> db \<Rightarrow> int \<Rightarrow> db_error + db" where
  "update_user_spending op new d now =
     (if op = INSERT \<and> 0 < amount new
      then update_users d (billing_user_id new) (add_amount (amount new)) now
      else Inr d)"

text \<open>
  \<^verbatim>\<open>INSERT INTO billing_records\<close>: \<^verbatim>\<open>action_type VARCHAR(50) NOT NULL\<close>,
  \<^verbatim>\<open>amount DECIMAL(10,4) NOT NULL\<close>,
  \<^verbatim>\<open>chk_billing_amount_not_zero CHECK (amount != 0)\<close>, the primary key, the foreign
  keys to \<^verbatim>\<open>users\<close> and \<^verbatim>\<open>vms\<close>, and the
  \<^verbatim>\<open>AFTER INSERT\<close> trigger \<^verbatim>\<open>update_user_spending_trigger\<close>.
\<close>

definition insert_billing_records :: "db \<Rightarrow> new_billing \<Rightarrow> int \<Rightarrow> db_error + db" where
  "insert_billing_records d n now =
     (case varchar 50 (nb_action_type n) of
        None \<Rightarrow> Inl StringTooLong
      | Some a \<Rightarrow>
          if \<not> numeric_fits 10 (nb_amount n) then Inl NumericOverflow
          else if nb_amount n = 0 then Inl (CheckViolation ''chk_billing_amount_not_zero'')
          else if select_by billing_id (nb_id n) (billing_records d) \<noteq> None
            then Inl (UniqueViolation ''billing_records_pkey'')
          else if select_by user_id (nb_user_id n) (users d) = None
            then Inl (ForeignKeyViolation ''billing_records_user_id_fkey'')
          else if \<not> null_or (\<lambda>v. select_by vm_id v (vms d) \<noteq> None) (nb_vm_id n)
            then Inl (ForeignKeyViolation ''billing_records_vm_id_fkey'')
          else
            (let row = \<lparr>billing_id = nb_id n, billing_user_id = nb_user_id n,
                        billing_vm_id = nb_vm_id n, action_type = a, amount = nb_amount n,
                        description = nb_description n,
                        billing_created_at = column_or (Some now) (nb_created_at n)\<rparr>
             in update_user_spending INSERT row
                  (d\<lparr>billing_records := billing_records d @ [row]\<rparr>) now))"

subsection \<open>The vms table and its triggers\<close>

text \<open>
  Column types of \<^verbatim>\<open>vms\<close>: \<^verbatim>\<open>name VARCHAR(100)\<close>,
  \<^verbatim>\<open>instance_type VARCHAR(20)\<close>, \<^verbatim>\<open>image VARCHAR(50)\<close>,
  \<^verbatim>\<open>status VARCHAR(20)\<close>, \<^verbatim>\<open>cost_per_hour DECIMAL(6,4)\<close>,
  \<^verbatim>\<open>uptime_hours DECIMAL(10,2)\<close>, \<^verbatim>\<open>total_cost DECIMAL(10,2)\<close>. The
  syntax of \<^verbatim>\<open>ip_address INET\<close> is not modelled.
\<close>

definition vms_coerce :: "vm_row \<Rightarrow> db_error + vm_row" where
  "vms_coerce r =
     (case (varchar 100 (vm_name r), varchar 20 (instance_type r), varchar 50 (vm_image r),
            varchar 20 (status r)) of
        (Some n, Some t, Some i, Some s) \<Rightarrow>
          if numeric_fits 6 (cost_per_hour r) \<and> null_or (numeric_fits 10) (uptime_hours r)
             \<and> null_or (numeric_fits 10) (total_cost r)
          then Inr (r\<lparr>vm_name := n, instance_type := t, vm_image := i, status := s\<rparr>)
          else Inl NumericOverflow
      | _ \<Rightarrow> Inl StringTooLong)"

text \<open>
  The \<^verbatim>\<open>CASE\<close> of \<^verbatim>\<open>update_vm_costs()\<close>, in ten-thousandths:
  \<^verbatim>\<open>WHEN 'small' THEN 0.05 WHEN 'medium' THEN 0.10 WHEN 'large' THEN 0.20
  WHEN 'xlarge' THEN 0.40 ELSE 0.05\<close>.
\<close>

definition class_rate :: "string \<Rightarrow> int" where
  "class_rate t =
     (if t = ''small'' then 500
      else if t = ''medium'' then 1000
      else if t = ''large'' then 2000
      else if t = ''xlarge'' then 4000
      else 500)"

text \<open>
  \<^verbatim>\<open>NEW.uptime_hours * NEW.cost_per_hour\<close>: hundredths times ten-thousandths is a
  count of millionths, rounded to the hundredths of \<^verbatim>\<open>total_cost\<close>.
\<close>

definition hours_cost :: "int \<Rightarrow> int \<Rightarrow> int" where
  "hours_cost hours rate = round_half_away (hours * rate) 10000"

text \<open>
  \<^verbatim>\<open>update_vm_costs()\<close>, the \<^verbatim>\<open>BEFORE INSERT OR UPDATE\<close> trigger of
  \<^verbatim>\<open>vms\<close>: it assigns \<^verbatim>\<open>NEW.cost_per_hour\<close> from the instance type and then
  \<^verbatim>\<open>NEW.total_cost = NEW.uptime_hours * NEW.cost_per_hour\<close>. An assignment to a
  field of \<^verbatim>\<open>NEW\<close> casts to the column's type and raises when the value does not
  fit.
\<close>

definition update_vm_costs :: "vm_row \<Rightarrow> db_error + vm_row" where
  "update_vm_costs new =
     (let rate = class_rate (instance_type new);
          cost = map_option (\<lambda>h. hours_cost h rate) (uptime_hours new)
      in if \<not> numeric_fits 6 rate \<or> \<not> null_or (numeric_fits 10) cost then Inl NumericOverflow
         else Inr (new\<lparr>cost_per_hour := rate, total_cost := cost\<rparr>))"

definition update_vms_updated_at :: "int \<Rightarrow> vm_row \<Rightarrow> vm_row" where
  "update_vms_updated_at now new = new\<lparr>vm_updated_at := Some now\<rparr>"

text \<open>
  The checks of \<^verbatim>\<open>vms\<close>, in the order of their names:
  \<^verbatim>\<open>chk_vms_cost_per_hour_positive CHECK (cost_per_hour > 0)\<close>,
  \<^verbatim>\<open>chk_vms_total_cost_positive CHECK (total_cost >= 0)\<close>,
  \<^verbatim>\<open>chk_vms_uptime_positive CHECK (uptime_hours >= 0)\<close>,
  \<^verbatim>\<open>CHECK (instance_type IN ('small', 'medium', 'large', 'xlarge'))\<close> and
  \<^verbatim>\<open>CHECK (status IN ('creating', 'running', 'stopped', 'terminated', 'error'))\<close>.
\<close>

definition instance_types :: "string list" where
  "instance_types = [''small'', ''medium'', ''large'', ''xlarge'']"

definition statuses :: "string list" where
  "statuses = [''creating'', ''running'', ''stopped'', ''terminated'', ''error'']"

definition vms_check :: "vm_row \<Rightarrow> db_error option" where
  "vms_check r =
     (if \<not> 0 < cost_per_hour r then Some (CheckViolation ''chk_vms_cost_per_hour_positive'')
      else if \<not> null_or (\<lambda>c. 0 \<le> c) (total_cost r)
        then Some (CheckViolation ''chk_vms_total_cost_positive'')
      else if \<not> null_or (\<lambda>h. 0 \<le> h) (uptime_hours r)
        then Some (CheckViolation ''chk_vms_uptime_positive'')
      else if instance_type r \<notin> set instance_types
        then Some (CheckViolation ''vms_instance_type_check'')
      else if status r \<notin> set statuses then Some (CheckViolation ''vms_status_check'')
      else None)"

definition vms_foreign_keys :: "db \<Rightarrow> vm_row \<Rightarrow> db_error option" where
  "vms_foreign_keys d r =
     (if select_by user_id (vm_user_id r) (users d) = None
        then Some (ForeignKeyViolation ''vms_user_id_fkey'')
      else if select_by project_id (vm_project_id r) (projects d) = None
        then Some (ForeignKeyViolation ''vms_project_id_fkey'')
      else None)"

text \<open>
  On an update a foreign key is checked again only when the update changes its column.
\<close>

definition vms_foreign_keys_changed :: "db \<Rightarrow> vm_row \<Rightarrow> vm_row \<Rightarrow> db_error option" where
  "vms_foreign_keys_changed d old new =
     (if vm_user_id new \<noteq> vm_user_id old
         \<and> select_by user_id (vm_user_id new) (users d) = None
        then Some (ForeignKeyViolation ''vms_user_id_fkey'')
      else if vm_project_id new \<noteq> vm_project_id old
         \<and> select_by project_id (vm_project_id new) (projects d) = None
        then Some (ForeignKeyViolation ''vms_project_id_fkey'')
      else None)"

record new_vm =
  nv_id :: nat
  nv_name :: string
  nv_instance_type :: string
  nv_image :: string
  nv_status :: "string column"
  nv_ip_address :: "string option"
  nv_user_id :: nat
  nv_project_id :: nat
  nv_cost_per_hour :: "int column"
  nv_uptime_hours :: "int option column"
  nv_total_cost :: "int option column"
  nv_created_at :: "int option column"
  nv_updated_at :: "int option column"
  nv_last_started :: "int option"
  nv_last_stopped :: "int option"

text \<open>
  The defaults of \<^verbatim>\<open>vms\<close>: \<^verbatim>\<open>status DEFAULT 'creating'\<close>,
  \<^verbatim>\<open>cost_per_hour DEFAULT 0.05\<close>, \<^verbatim>\<open>uptime_hours DEFAULT 0.00\<close>,
  \<^verbatim>\<open>total_cost DEFAULT 0.00\<close>, the two timestamps.
\<close>

definition vms_defaults :: "int \<Rightarrow> new_vm \<Rightarrow> vm_row" where
  "vms_defaults now n =
     \<lparr>vm_id = nv_id n, vm_name = nv_name n, instance_type = nv_instance_type n,
      vm_image = nv_image n, status = column_or ''creating'' (nv_status n),
      ip_address = nv_ip_address n, vm_user_id = nv_user_id n, vm_project_id = nv_project_id n,
      cost_per_hour = column_or 500 (nv_cost_per_hour n),
      uptime_hours = column_or (Some 0) (nv_uptime_hours n),
      total_cost = column_or (Some 0) (nv_total_cost n),
      vm_created_at = column_or (Some now) (nv_created_at n),
      vm_updated_at = column_or (Some now) (nv_updated_at n),
      last_started = nv_last_started n, last_stopped = nv_last_stopped n\<rparr>"

text \<open>
  \<^verbatim>\<open>INSERT INTO vms\<close>: defaults, column types, the \<^verbatim>\<open>BEFORE INSERT\<close> trigger
  \<^verbatim>\<open>update_vm_costs_trigger\<close>, the checks, the primary key, the foreign keys.
\<close>

definition insert_vms :: "db \<Rightarrow> new_vm \<Rightarrow> int \<Rightarrow> db_error + db" where
  "insert_vms d n now =
     (case vms_coerce (vms_defaults now n) of
        Inl e \<Rightarrow> Inl e
      | Inr r0 \<Rightarrow>
          (case update_vm_costs r0 of
             Inl e \<Rightarrow> Inl e
           | Inr r \<Rightarrow>
               (case vms_check r of
                  Some e \<Rightarrow> Inl e
                | None \<Rightarrow>
                    if select_by vm_id (vm_id r) (vms d) \<noteq> None
                    then Inl (UniqueViolation ''vms_pkey'')
                    else (case vms_foreign_keys d r of
                            Some e \<Rightarrow> Inl e
                          | None \<Rightarrow> Inr (d\<lparr>vms := vms d @ [r]\<rparr>)))))"

text \<open>
  \<^verbatim>\<open>log_vm_state_transition()\<close>, the \<^verbatim>\<open>AFTER UPDATE\<close> trigger of
  \<^verbatim>\<open>vms\<close>: \<^verbatim>\<open>IF OLD.status IS DISTINCT FROM NEW.status THEN INSERT INTO
  vm_state_transitions (vm_id, from_status, to_status, reason) VALUES (NEW.id, OLD.status,
  NEW.status, 'Status updated')\<close>.
\<close>

definition log_vm_state_transition :: "vm_row \<Rightarrow> vm_row \<Rightarrow> db \<Rightarrow> int \<Rightarrow> db" where
  "log_vm_state_transition old new d now =
     (if status old \<noteq> status new
      then d\<lparr>vm_state_transitions := vm_state_transitions d @
             [\<lparr>transition_vm_id = vm_id new, from_status = Some (status old),
               to_status = status new, transition_reason = Some ''Status updated'',
               transition_created_at = Some now\<rparr>]\<rparr>
      else d)"

text \<open>
  \<^verbatim>\<open>UPDATE vms SET ... WHERE id = vid\<close>, with the \<^verbatim>\<open>SET\<close> list as the
  function \<open>upd\<close> (it never assigns the primary key). The \<^verbatim>\<open>BEFORE UPDATE\<close>
  triggers run in the order of their names, \<^verbatim>\<open>update_vm_costs_trigger\<close> before
  \<^verbatim>\<open>update_vms_updated_at\<close>.
\<close>

definition update_vms :: "db \<Rightarrow> nat \<Rightarrow> (vm_row \<Rightarrow> vm_row) \<Rightarrow> int \<Rightarrow> db_error + db" where
  "update_vms d vid upd now =
     (case select_by vm_id vid (vms d) of
        None \<Rightarrow> Inr d
      | Some old \<Rightarrow>
          (case vms_coerce ((upd old)\<lparr>vm_id := vid\<rparr>) of
             Inl e \<Rightarrow> Inl e
           | Inr r0 \<Rightarrow>
               (case update_vm_costs r0 of
                  Inl e \<Rightarrow> Inl e
                | Inr r1 \<Rightarrow>
                    (let new = update_vms_updated_at now r1 in
                     case vms_check new of
                       Some e \<Rightarrow> Inl e
                     | None \<Rightarrow>
                         (case vms_foreign_keys_changed d old new of
                            Some e \<Rightarrow> Inl e
                          | None \<Rightarrow>
                              Inr (log_vm_state_transition old new
                                     (d\<lparr>vms := replace_by vm_id vid new (vms d)\<rparr>) now))))))"

subsection \<open>Statements and histories\<close>

text \<open>
  The statements the application issues against these tables. Each runs in a transaction
  of its own: one that raises changes nothing. A history is a list of statements, each
  with the time it ran at.
\<close>

datatype statement =
    InsertUser new_user
  | UpdateUser nat "user_row \<Rightarrow> user_row"
  | InsertProject new_project
  | InsertVM new_vm
  | UpdateVM nat "vm_row \<Rightarrow> vm_row"
  | InsertBilling new_billing

fun execute :: "db \<Rightarrow> statement \<Rightarrow> int \<Rightarrow> db_error + db" where
  "execute d (InsertUser n) now = insert_users d n now"
| "execute d (UpdateUser uid upd) now = update_users d uid upd now"
| "execute d (InsertProject n) now = insert_projects d n now"
| "execute d (InsertVM n) now = insert_vms d n now"
| "execute d (UpdateVM vid upd) now = update_vms d vid upd now"
| "execute d (InsertBilling n) now = insert_billing_records d n now"

definition commit :: "db \<Rightarrow> statement \<Rightarrow> int \<Rightarrow> db" where
  "commit d s now = (case execute d s now of Inl e \<Rightarrow> d | Inr d' \<Rightarrow> d')"

fun run :: "db \<Rightarrow> (statement \<times> int) list \<Rightarrow> db" where
  "run d [] = d"
| "run d ((s, now) # rest) = run (commit d s now) rest"

definition empty_db :: db where
  "empty_db = \<lparr>users = [], projects = [], vms = [], billing_records = [],
               vm_state_transitions = []\<rparr>"

subsection \<open>The front end\<close>

text \<open>
  \<^verbatim>\<open>vmPricing\<close> of the pricing calculator, its decimal literals in
  ten-thousandths: \<^verbatim>\<open>{ small: 0.05, medium: 0.10, large: 0.20, xlarge: 0.40 }\<close>.
\<close>

definition vmPricing :: "(string \<times> int) list" where
  "vmPricing = [(''small'', 500), (''medium'', 1000), (''large'', 2000), (''xlarge'', 4000)]"

text \<open>
  \<^verbatim>\<open>getActionTypeColor\<close> of the billing dashboard: a \<^verbatim>\<open>switch\<close> over the
  action types the history shows, with a \<^verbatim>\<open>default\<close>.
\<close>

definition getActionTypeColor :: "string \<Rightarrow> string" where
  "getActionTypeColor actionType =
     (if actionType = ''vm_create'' then ''bg-blue-100 text-blue-800''
      else if actionType = ''vm_usage'' then ''bg-green-100 text-green-800''
      else if actionType = ''credit_add'' then ''bg-purple-100 text-purple-800''
      else if actionType = ''credit_deduct'' then ''bg-red-100 text-red-800''
      else ''bg-gray-100 text-gray-800'')"



subsection \<open>Reading an account, and the invariants of the tables\<close>

definition credits_of :: "db \<Rightarrow> nat \<Rightarrow> int option" where
  "credits_of d uid = (case select_by user_id uid (users d) of None \<Rightarrow> None | Some u \<Rightarrow> credits u)"

definition total_spent_of :: "db \<Rightarrow> nat \<Rightarrow> int option" where
  "total_spent_of d uid =
     (case select_by user_id uid (users d) of None \<Rightarrow> None | Some u \<Rightarrow> total_spent u)"

text \<open>The order of two nullable amounts: \<^verbatim>\<open>NULL\<close> is only comparable with itself.\<close>

fun option_le :: "int option \<Rightarrow> int option \<Rightarrow> bool" where
  "option_le None None = True"
| "option_le (Some a) (Some b) = (a \<le> b)"
| "option_le _ _ = False"

text \<open>
  A row as its table holds it: every string within the length of its column, every
  number within its precision, the checks of the table true, and for a VM the two
  columns its trigger computes equal to what the trigger computes.
\<close>

definition user_ok :: "user_row \<Rightarrow> bool" where
  "user_ok r =
     (length (email r) \<le> 255 \<and> length (user_name r) \<le> 100
      \<and> length (hashed_password r) \<le> 255
      \<and> null_or (numeric_fits 10) (credits r) \<and> null_or (numeric_fits 10) (total_spent r)
      \<and> null_or (\<lambda>c. 0 \<le> c) (credits r) \<and> null_or (\<lambda>t. 0 \<le> t) (total_spent r))"

definition vm_ok :: "vm_row \<Rightarrow> bool" where
  "vm_ok r =
     (length (vm_name r) \<le> 100 \<and> length (instance_type r) \<le> 20
      \<and> length (vm_image r) \<le> 50 \<and> length (status r) \<le> 20
      \<and> null_or (numeric_fits 10) (uptime_hours r) \<and> null_or (numeric_fits 10) (total_cost r)
      \<and> cost_per_hour r = class_rate (instance_type r)
      \<and> total_cost r = map_option (\<lambda>h. hours_cost h (cost_per_hour r)) (uptime_hours r)
      \<and> null_or (\<lambda>c. 0 \<le> c) (total_cost r) \<and> null_or (\<lambda>h. 0 \<le> h) (uptime_hours r)
      \<and> instance_type r \<in> set instance_types \<and> status r \<in> set statuses)"

definition billing_ok :: "billing_row \<Rightarrow> bool" where
  "billing_ok r =
     (length (action_type r) \<le> 50 \<and> numeric_fits 10 (amount r) \<and> amount r \<noteq> 0)"

definition valid_db :: "db \<Rightarrow> bool" where
  "valid_db d =
     (list_all user_ok (users d) \<and> distinct (map user_id (users d))
      \<and> distinct (map email (users d))
      \<and> list_all vm_ok (vms d) \<and> distinct (map vm_id (vms d))
      \<and> list_all billing_ok (billing_records d) \<and> distinct (map billing_id (billing_records d)))"

text \<open>Statements that do not assign a given column.\<close>

fun keeps_total_spent :: "statement \<Rightarrow> bool" where
  "keeps_total_spent (UpdateUser uid upd) = (\<forall>r. total_spent (upd r) = total_spent r)"
| "keeps_total_spent _ = True"

fun keeps_instance_type :: "statement \<Rightarrow> bool" where
  "keeps_instance_type (UpdateVM vid upd) = (\<forall>r. instance_type (upd r) = instance_type r)"
| "keeps_instance_type _ = True"



text \<open>The fixed set of reasons the specification gives a ledger entry.\<close>

definition ledger_reasons :: "string list" where
  "ledger_reasons = [''vm_create'', ''vm_usage'', ''credit_add'', ''manual_adjustment'']"

subsection \<open>The lifecycle operations\<close>

text \<open>
  The orchestrator that serves \<^verbatim>\<open>POST /vms/{id}/start|stop|restart\<close> and
  \<^verbatim>\<open>DELETE /vms/{id}\<close> is the backend's VM service, which is not among the
  sources: the sources hold its callers (the dashboard and the API client) and the tables
  it writes. The status changes of its operations are modelled from the specification.
\<close>

text \<open>
  The five values of \<^verbatim>\<open>vms.status\<close>, as the check on the column lists them,
  and their spelling in the column.
\<close>

datatype vm_status = Creating | Running | Stopped | Terminated | Error


text \<open>
  Modelled from the spec: the errors of the orchestrator (section 7), which the sources
  do not hold; a \<open>PersistenceFailure\<close> carries what the storage layer raised.
\<close>

datatype orchestrator_error =
    InsufficientCredits
  | InvalidTransition
  | InvalidInstanceClass
  | InvalidAmount
  | ConcurrencyConflict
  | PersistenceFailure db_error

text \<open>
  Modelled from the spec: the state table of section 4.2, which the sources do not hold
  (the check on \<^verbatim>\<open>status\<close> only names the five values). In the
  specification's words: Creating to Running or Error; Running to Stopped, Running or
  Terminated; Stopped to Running or Terminated; Error to Terminated; nothing from
  Terminated.
\<close>

fun state_table :: "vm_status \<Rightarrow> vm_status \<Rightarrow> bool" where
  "state_table Creating st' = (st' = Running \<or> st' = Error)"
| "state_table Running st' = (st' = Stopped \<or> st' = Running \<or> st' = Terminated)"
| "state_table Stopped st' = (st' = Running \<or> st' = Terminated)"
| "state_table Error st' = (st' = Terminated)"
| "state_table Terminated st' = False"

text \<open>
  Modelled from the spec: a transition of the VM State Machine (section 4.2), which the
  sources do not hold. The state machine enforces the legal transitions: a transition
  fails with \<open>InvalidTransition\<close> if attempted from a state that does not permit it.
  Every status change of the orchestrator is made through it.
\<close>

definition transition :: "vm_status \<Rightarrow> vm_status \<Rightarrow> orchestrator_error + vm_status" where
  "transition st st' = (if state_table st st' then Inr st' else Inl InvalidTransition)"









subsection \<open>Posting to the ledger\<close>





subsection \<open>A sample history\<close>

text \<open>
  One account, one project and one small VM, used to run the definitions on. The
  account is inserted without a balance, so it takes the defaults.
\<close>

definition sample_user :: new_user where
  "sample_user =
     \<lparr>nu_id = 1, nu_email = ''ann@example.org'', nu_name = ''Ann'',
      nu_hashed_password = ''hash'', nu_credits = Default, nu_total_spent = Default,
      nu_is_active = Default, nu_created_at = Default, nu_updated_at = Default,
      nu_last_login = None\<rparr>"

definition sample_project :: new_project where
  "sample_project =
     \<lparr>np_id = 1, np_name = ''demo'', np_description = None, np_user_id = 1,
      np_created_at = Default, np_updated_at = Default\<rparr>"

definition sample_vm :: new_vm where
  "sample_vm =
     \<lparr>nv_id = 1, nv_name = ''web'', nv_instance_type = ''small'', nv_image = ''ubuntu-22.04'',
      nv_status = Value ''running'', nv_ip_address = None, nv_user_id = 1, nv_project_id = 1,
      nv_cost_per_hour = Default, nv_uptime_hours = Default, nv_total_cost = Default,
      nv_created_at = Default, nv_updated_at = Default, nv_last_started = Some 0,
      nv_last_stopped = None\<rparr>"

definition sample_entry :: new_billing where
  "sample_entry =
     \<lparr>nb_id = 1, nb_user_id = 1, nb_vm_id = None, nb_action_type = ''credit_add'',
      nb_amount = 1000, nb_description = None, nb_created_at = Default\<rparr>"

definition sample_db :: db where
  "sample_db =
     run empty_db [(InsertUser sample_user, 0), (InsertProject sample_project, 0),
                   (InsertVM sample_vm, 0)]"

section \<open>Properties\<close>

subsection \<open>Rows found and rows replaced\<close>

lemma select_by_Some: "select_by key k rows = Some r \<Longrightarrow> r \<in> set rows \<and> key r = k"
  unfolding select_by_def by (induction rows) (auto split: if_splits)

lemma select_by_None: "(select_by key k rows = None) = (k \<notin> key ` set rows)"
  unfolding select_by_def by (induction rows) auto

lemma select_by_append:
  "select_by key k (rows @ [r]) =
     (case select_by key k rows of Some x \<Rightarrow> Some x
      | None \<Rightarrow> if key r = k then Some r else None)"
  unfolding select_by_def by (induction rows) auto

lemma select_by_replace_same:
  "select_by key k rows = Some old \<Longrightarrow> key new = k \<Longrightarrow>
   select_by key k (replace_by key k new rows) = Some new"
  unfolding select_by_def replace_by_def by (induction rows) (auto split: if_splits)

lemma select_by_replace_other:
  "k' \<noteq> k \<Longrightarrow> key new = k \<Longrightarrow>
   select_by key k' (replace_by key k new rows) = select_by key k' rows"
  unfolding select_by_def replace_by_def by (induction rows) auto

lemma map_key_replace:
  "key new = k \<Longrightarrow> map key (replace_by key k new rows) = map key rows"
  unfolding replace_by_def by (induction rows) auto

lemma set_replace_by:
  "set (replace_by key k new rows) \<subseteq> insert new (set rows)"
  unfolding replace_by_def by auto

subsection \<open>Column types\<close>

lemma varchar_length: "varchar n s = Some s' \<Longrightarrow> length s' \<le> n"
  unfolding varchar_def by (auto split: if_splits)

lemma varchar_short: "length s \<le> n \<Longrightarrow> varchar n s = Some s"
  unfolding varchar_def by simp

lemma round_half_away_exact: "round_half_away (100 * t) 100 = t"
  unfolding round_half_away_def by auto

lemma round_half_away_add_exact: "round_half_away (100 * t + 100 * c) 100 = t + c"
  using round_half_away_exact [of "t + c"] by (simp add: algebra_simps)

lemma round_half_away_grows: "0 < a \<Longrightarrow> t \<le> round_half_away (100 * t + a) 100"
  unfolding round_half_away_def by (auto; linarith)

lemma round_half_away_nonneg: "0 \<le> n \<Longrightarrow> 0 < d \<Longrightarrow> 0 \<le> round_half_away n d"
  unfolding round_half_away_def by (simp add: pos_imp_zdiv_nonneg_iff)

lemma round_half_away_error: "\<bar>10000 * round_half_away n 10000 - n\<bar> \<le> 5000"
  unfolding round_half_away_def by (auto; linarith)

subsection \<open>The users table keeps its invariants\<close>

lemma users_coerce_fields:
  assumes "users_coerce r = Inr r'"
  shows "r' = r\<lparr>email := email r', user_name := user_name r', hashed_password := hashed_password r'\<rparr>"
    and "varchar 255 (email r) = Some (email r')"
    and "varchar 100 (user_name r) = Some (user_name r')"
    and "varchar 255 (hashed_password r) = Some (hashed_password r')"
    and "null_or (numeric_fits 10) (credits r)"
    and "null_or (numeric_fits 10) (total_spent r)"
  using assms unfolding users_coerce_def
  by (auto split: option.splits if_splits)

lemma users_coerce_keeps:
  assumes "users_coerce r = Inr r'"
  shows "user_id r' = user_id r" "credits r' = credits r" "total_spent r' = total_spent r"
    "is_active r' = is_active r" "user_created_at r' = user_created_at r"
    "user_updated_at r' = user_updated_at r" "last_login r' = last_login r"
  using assms unfolding users_coerce_def
  by (auto split: option.splits if_splits)

lemma user_ok_stamped:
  assumes "users_coerce r = Inr r0" "users_check (update_users_updated_at now r0) = None"
  shows "user_ok (update_users_updated_at now r0)"
proof -
  note f = users_coerce_fields [OF assms(1)] and k = users_coerce_keeps [OF assms(1)]
  have "length (email r0) \<le> 255" "length (user_name r0) \<le> 100"
    "length (hashed_password r0) \<le> 255"
    using f(2-4) by (auto dest: varchar_length)
  moreover have "null_or (\<lambda>c. 0 \<le> c) (credits r0)" "null_or (\<lambda>t. 0 \<le> t) (total_spent r0)"
    using assms(2) unfolding users_check_def update_users_updated_at_def
    by (auto split: if_splits)
  ultimately show ?thesis
    using f(5,6) k(2,3) unfolding user_ok_def update_users_updated_at_def by simp
qed

lemma user_ok_accepted:
  assumes "user_ok r"
  shows "users_coerce r = Inr r" "users_check r = None"
  using assms unfolding user_ok_def users_coerce_def users_check_def
  by (simp_all add: varchar_short)

lemma update_users_cases:
  assumes "update_users d uid upd now = Inr d'"
  obtains (missing) "select_by user_id uid (users d) = None" "d' = d"
  | (updated) old new0 where "select_by user_id uid (users d) = Some old"
      "users_coerce ((upd old)\<lparr>user_id := uid\<rparr>) = Inr new0"
      "users_check (update_users_updated_at now new0) = None"
      "email new0 = email old
       \<or> \<not> list_ex (\<lambda>r. user_id r \<noteq> uid \<and> email r = email new0) (users d)"
      "d' = d\<lparr>users := replace_by user_id uid (update_users_updated_at now new0) (users d)\<rparr>"
  using assms unfolding update_users_def
  by (auto simp: Let_def update_users_updated_at_def split: option.splits sum.splits if_splits)

lemma insert_users_cases:
  assumes "insert_users d n now = Inr d'"
  obtains r where "users_coerce (users_defaults now n) = Inr r" "users_check r = None"
    "select_by user_id (user_id r) (users d) = None" "email r \<notin> set (map email (users d))"
    "d' = d\<lparr>users := users d @ [r]\<rparr>"
  using assms unfolding insert_users_def
  by (auto split: option.splits sum.splits if_splits)

lemma replace_by_absent: "k \<notin> key ` set rows \<Longrightarrow> replace_by key k new rows = rows"
  unfolding replace_by_def by (induction rows) auto

lemma replace_by_Cons:
  "replace_by key k new (r # rs) = (if key r = k then new else r) # replace_by key k new rs"
  unfolding replace_by_def by simp

lemma distinct_email_replace:
  assumes "distinct (map user_id rows)" "distinct (map email rows)"
    "\<not> list_ex (\<lambda>r. user_id r \<noteq> uid \<and> email r = email new) rows" "user_id new = uid"
  shows "distinct (map email (replace_by user_id uid new rows))"
  using assms
proof (induction rows)
  case Nil
  then show ?case by (simp add: replace_by_def)
next
  case (Cons r rs)
  show ?case
  proof (cases "user_id r = uid")
    case True
    then have absent: "uid \<notin> user_id ` set rs" using Cons.prems(1) by auto
    have "email new \<notin> email ` set rs"
    proof
      assume "email new \<in> email ` set rs"
      then obtain x where x: "x \<in> set rs" "email x = email new" by auto
      then have "user_id x \<noteq> uid" using absent by auto
      then show False using Cons.prems(3) x by (auto simp: list_ex_iff)
    qed
    then show ?thesis
      using True Cons.prems(2) replace_by_absent [OF absent, of new]
      by (simp add: replace_by_Cons)
  next
    case False
    have ih: "distinct (map email (replace_by user_id uid new rs))"
      using Cons by (simp add: list_ex_iff)
    have "email r \<noteq> email new" using Cons.prems(3) False by (auto simp: list_ex_iff)
    moreover have "email r \<notin> email ` set rs" using Cons.prems(2) by auto
    ultimately have "email r \<notin> email ` set (replace_by user_id uid new rs)"
      using set_replace_by [of user_id uid new rs] by auto
    then show ?thesis using False ih by (simp add: replace_by_Cons)
  qed
qed

lemma distinct_email_owner:
  assumes "distinct (map email rows)" "u \<in> set rows" "r \<in> set rows" "email r = email u"
  shows "r = u"
  using assms by (meson distinct_map inj_on_def)

lemma email_not_shared:
  assumes "distinct (map email rows)" "select_by user_id uid rows = Some old"
  shows "\<not> list_ex (\<lambda>r. user_id r \<noteq> uid \<and> email r = email old) rows"
proof
  assume "list_ex (\<lambda>r. user_id r \<noteq> uid \<and> email r = email old) rows"
  then obtain r where r: "r \<in> set rows" "user_id r \<noteq> uid" "email r = email old"
    by (auto simp: list_ex_iff)
  have old: "old \<in> set rows" "user_id old = uid" using select_by_Some [OF assms(2)] by simp_all
  from distinct_email_owner [OF assms(1) old(1) r(1,3)] show False using r(2) old(2) by simp
qed

lemma update_users_valid:
  assumes "valid_db d" "update_users d uid upd now = Inr d'"
  shows "valid_db d'"
  using assms(2)
proof (cases rule: update_users_cases)
  case missing
  then show ?thesis using assms(1) by simp
next
  case (updated old new0)
  let ?new = "update_users_updated_at now new0"
  have id: "user_id ?new = uid"
    using users_coerce_keeps(1) [OF updated(2)] by (simp add: update_users_updated_at_def)
  have ok: "user_ok ?new" using user_ok_stamped [OF updated(2,3)] .
  have em: "email ?new = email new0" by (simp add: update_users_updated_at_def)
  have "list_all user_ok (replace_by user_id uid ?new (users d))"
    using assms(1) ok set_replace_by [of user_id uid ?new "users d"]
    by (auto simp: valid_db_def list_all_iff)
  moreover have "distinct (map user_id (replace_by user_id uid ?new (users d)))"
    using assms(1) map_key_replace [of user_id ?new uid "users d"] id by (simp add: valid_db_def)
  moreover have "\<not> list_ex (\<lambda>r. user_id r \<noteq> uid \<and> email r = email new0) (users d)"
    using updated(4) email_not_shared [OF _ updated(1)] assms(1) by (auto simp: valid_db_def)
  then have "distinct (map email (replace_by user_id uid ?new (users d)))"
    using assms(1) id em distinct_email_replace [of "users d" uid ?new]
    by (simp add: valid_db_def)
  ultimately show ?thesis using assms(1) updated(5) by (simp add: valid_db_def)
qed

lemma insert_users_valid:
  assumes "valid_db d" "insert_users d n now = Inr d'"
  shows "valid_db d'"
  using assms(2)
proof (cases rule: insert_users_cases)
  case (1 r)
  note f = users_coerce_fields [OF 1(1)] and k = users_coerce_keeps [OF 1(1)]
  have "length (email r) \<le> 255" "length (user_name r) \<le> 100"
    "length (hashed_password r) \<le> 255"
    using f(2-4) by (auto dest: varchar_length)
  moreover have "null_or (\<lambda>c. 0 \<le> c) (credits r)" "null_or (\<lambda>t. 0 \<le> t) (total_spent r)"
    using 1(2) unfolding users_check_def by (auto split: if_splits)
  ultimately have "user_ok r" using f(5,6) k(2,3) unfolding user_ok_def by simp
  moreover have "user_id r \<notin> user_id ` set (users d)" using 1(3) by (simp add: select_by_None)
  ultimately show ?thesis using assms(1) 1(4,5) by (simp add: valid_db_def)
qed

subsection \<open>Every statement keeps the invariants of the tables\<close>

lemma vms_coerce_fields:
  assumes "vms_coerce r = Inr r'"
  shows "varchar 100 (vm_name r) = Some (vm_name r')"
    and "varchar 20 (instance_type r) = Some (instance_type r')"
    and "varchar 50 (vm_image r) = Some (vm_image r')"
    and "varchar 20 (status r) = Some (status r')"
    and "numeric_fits 6 (cost_per_hour r)"
    and "null_or (numeric_fits 10) (uptime_hours r)"
    and "null_or (numeric_fits 10) (total_cost r)"
  using assms unfolding vms_coerce_def
  by (auto split: option.splits if_splits)

lemma vms_coerce_keeps:
  assumes "vms_coerce r = Inr r'"
  shows "vm_id r' = vm_id r" "ip_address r' = ip_address r" "vm_user_id r' = vm_user_id r"
    "vm_project_id r' = vm_project_id r" "cost_per_hour r' = cost_per_hour r"
    "uptime_hours r' = uptime_hours r" "total_cost r' = total_cost r"
    "vm_created_at r' = vm_created_at r" "vm_updated_at r' = vm_updated_at r"
    "last_started r' = last_started r" "last_stopped r' = last_stopped r"
  using assms unfolding vms_coerce_def
  by (auto split: option.splits if_splits)

lemma update_vm_costs_fields:
  assumes "update_vm_costs r = Inr r'"
  shows "r' = r\<lparr>cost_per_hour := class_rate (instance_type r),
                 total_cost := map_option (\<lambda>h. hours_cost h (class_rate (instance_type r)))
                                 (uptime_hours r)\<rparr>"
    and "null_or (numeric_fits 10) (total_cost r')"
    and "numeric_fits 6 (cost_per_hour r')"
  using assms unfolding update_vm_costs_def
  by (auto simp: Let_def split: if_splits)

lemma class_rate_fits: "numeric_fits 6 (class_rate t)"
  unfolding class_rate_def numeric_fits_def by simp

lemma class_rate_positive: "0 < class_rate t"
  unfolding class_rate_def by simp

lemma update_vm_costs_keeps:
  assumes "update_vm_costs r = Inr r'"
  shows "vm_id r' = vm_id r" "vm_name r' = vm_name r" "instance_type r' = instance_type r"
    "vm_image r' = vm_image r" "status r' = status r" "ip_address r' = ip_address r"
    "vm_user_id r' = vm_user_id r" "vm_project_id r' = vm_project_id r"
    "uptime_hours r' = uptime_hours r" "vm_created_at r' = vm_created_at r"
    "vm_updated_at r' = vm_updated_at r" "last_started r' = last_started r"
    "last_stopped r' = last_stopped r"
    "cost_per_hour r' = class_rate (instance_type r)"
    "total_cost r' = map_option (\<lambda>h. hours_cost h (class_rate (instance_type r))) (uptime_hours r)"
  using assms unfolding update_vm_costs_def
  by (auto simp: Let_def split: if_splits)

lemma vms_check_fields:
  assumes "vms_check r = None"
  shows "0 < cost_per_hour r" "null_or (\<lambda>c. 0 \<le> c) (total_cost r)"
    "null_or (\<lambda>h. 0 \<le> h) (uptime_hours r)" "instance_type r \<in> set instance_types"
    "status r \<in> set statuses"
  using assms unfolding vms_check_def by (auto split: if_splits)

lemma vm_ok_unstamped:
  assumes "vms_coerce r = Inr r0" "update_vm_costs r0 = Inr r1" "vms_check r1 = None"
  shows "vm_ok r1"
proof -
  note k = update_vm_costs_keeps [OF assms(2)]
  note f = update_vm_costs_fields(2) [OF assms(2)]
  note c = vms_check_fields [OF assms(3)]
  have "length (vm_name r0) \<le> 100" "length (instance_type r0) \<le> 20"
    "length (vm_image r0) \<le> 50" "length (status r0) \<le> 20"
    using vms_coerce_fields(1-4) [OF assms(1)] by (auto dest: varchar_length)
  moreover have "null_or (numeric_fits 10) (uptime_hours r0)"
    using vms_coerce_fields(6) [OF assms(1)] vms_coerce_keeps(6) [OF assms(1)] by simp
  ultimately show ?thesis
    using f c k(2-5,9,14,15) unfolding vm_ok_def by simp
qed

lemma vm_ok_stamp: "vm_ok r \<Longrightarrow> vm_ok (update_vms_updated_at now r)"
  unfolding vm_ok_def update_vms_updated_at_def by auto

lemma vms_check_stamp: "vms_check (update_vms_updated_at now r) = vms_check r"
  unfolding vms_check_def update_vms_updated_at_def by simp

lemma vm_ok_stamped:
  assumes "vms_coerce r = Inr r0" "update_vm_costs r0 = Inr r1"
    "vms_check (update_vms_updated_at now r1) = None"
  shows "vm_ok (update_vms_updated_at now r1)"
  using vm_ok_unstamped [OF assms(1,2)] assms(3) vm_ok_stamp by (simp add: vms_check_stamp)

lemma hours_cost_fits:
  assumes "numeric_fits 10 h" "0 < rate" "rate \<le> 10000"
  shows "numeric_fits 10 (hours_cost h rate)"
proof -
  have b: "\<bar>h * rate\<bar> \<le> \<bar>h\<bar> * 10000"
    using assms(2,3) by (simp add: abs_mult mult_left_mono)
  have e: "\<bar>10000 * hours_cost h rate - h * rate\<bar> \<le> 5000"
    unfolding hours_cost_def by (rule round_half_away_error)
  have "10000 * \<bar>hours_cost h rate\<bar> \<le> \<bar>h\<bar> * 10000 + 5000" using b e by linarith
  moreover have "\<bar>h\<bar> \<le> 10 ^ 10 - 1" using assms(1) unfolding numeric_fits_def by simp
  ultimately have "10000 * \<bar>hours_cost h rate\<bar> < 10000 * 10 ^ 10" by linarith
  then show ?thesis unfolding numeric_fits_def by simp
qed

text \<open>
  The trigger never raises on a row that passed the column types: the rate of every
  class fits its column, and so does the cost of every uptime that fits its own.
\<close>

lemma update_vm_costs_returns:
  assumes "null_or (numeric_fits 10) (uptime_hours r)"
  shows "\<exists>r'. update_vm_costs r = Inr r'"
proof -
  have "0 < class_rate (instance_type r)" "class_rate (instance_type r) \<le> 10000"
    unfolding class_rate_def by simp_all
  then have "null_or (numeric_fits 10)
      (map_option (\<lambda>h. hours_cost h (class_rate (instance_type r))) (uptime_hours r))"
    using assms hours_cost_fits by (cases "uptime_hours r") (simp_all add: null_or_def)
  then show ?thesis
    unfolding update_vm_costs_def by (simp add: Let_def class_rate_fits)
qed

lemma vm_ok_accepted:
  assumes "vm_ok r"
  shows "vms_coerce r = Inr r" "update_vm_costs r = Inr r" "vms_check r = None"
proof -
  have cp: "cost_per_hour r = class_rate (instance_type r)"
    and tc: "map_option (\<lambda>h. hours_cost h (class_rate (instance_type r))) (uptime_hours r)
               = total_cost r"
    and nf: "null_or (numeric_fits 10) (total_cost r)" "null_or (numeric_fits 10) (uptime_hours r)"
    and len: "length (vm_name r) \<le> 100" "length (instance_type r) \<le> 20"
      "length (vm_image r) \<le> 50" "length (status r) \<le> 20"
    and chk: "null_or (\<lambda>c. 0 \<le> c) (total_cost r)" "null_or (\<lambda>h. 0 \<le> h) (uptime_hours r)"
      "instance_type r \<in> set instance_types" "status r \<in> set statuses"
    using assms unfolding vm_ok_def by auto
  show "vms_coerce r = Inr r"
    using nf len class_rate_fits [of "instance_type r"] unfolding vms_coerce_def
    by (simp add: varchar_short cp)
  show "update_vm_costs r = Inr r"
    using nf class_rate_fits [of "instance_type r"] unfolding update_vm_costs_def Let_def tc
    by (simp add: cp [symmetric])
  show "vms_check r = None"
    using chk class_rate_positive [of "instance_type r"] unfolding vms_check_def
    by (simp add: cp)
qed

lemma insert_vms_cases:
  assumes "insert_vms d n now = Inr d'"
  obtains r0 r where "vms_coerce (vms_defaults now n) = Inr r0" "update_vm_costs r0 = Inr r"
    "vms_check r = None" "select_by vm_id (vm_id r) (vms d) = None"
    "vms_foreign_keys d r = None" "d' = d\<lparr>vms := vms d @ [r]\<rparr>"
  using assms unfolding insert_vms_def
  by (auto split: option.splits sum.splits if_splits)

lemma update_vms_cases:
  assumes "update_vms d vid upd now = Inr d'"
  obtains (missing) "select_by vm_id vid (vms d) = None" "d' = d"
  | (updated) old r0 r1 where "select_by vm_id vid (vms d) = Some old"
      "vms_coerce ((upd old)\<lparr>vm_id := vid\<rparr>) = Inr r0" "update_vm_costs r0 = Inr r1"
      "vms_check (update_vms_updated_at now r1) = None"
      "vms_foreign_keys_changed d old (update_vms_updated_at now r1) = None"
      "d' = log_vm_state_transition old (update_vms_updated_at now r1)
              (d\<lparr>vms := replace_by vm_id vid (update_vms_updated_at now r1) (vms d)\<rparr>) now"
  using assms unfolding update_vms_def
  by (auto simp: Let_def split: option.splits sum.splits if_splits)

lemma log_vm_state_transition_keeps:
  "users (log_vm_state_transition old new d now) = users d"
  "projects (log_vm_state_transition old new d now) = projects d"
  "vms (log_vm_state_transition old new d now) = vms d"
  "billing_records (log_vm_state_transition old new d now) = billing_records d"
  unfolding log_vm_state_transition_def by auto

lemma update_vm_costs_vm_id: "update_vm_costs r = Inr r' \<Longrightarrow> vm_id r' = vm_id r"
  unfolding update_vm_costs_def by (auto simp: Let_def split: if_splits)

lemma insert_vms_valid:
  assumes "valid_db d" "insert_vms d n now = Inr d'"
  shows "valid_db d'"
  using assms(2)
proof (cases rule: insert_vms_cases)
  case (1 r0 r)
  have "vm_ok r" using vm_ok_unstamped [OF 1(1,2,3)] .
  moreover have "vm_id r \<notin> vm_id ` set (vms d)" using 1(4) by (simp add: select_by_None)
  ultimately show ?thesis using assms(1) 1(6) by (simp add: valid_db_def)
qed

lemma update_vms_valid:
  assumes "valid_db d" "update_vms d vid upd now = Inr d'"
  shows "valid_db d'"
  using assms(2)
proof (cases rule: update_vms_cases)
  case missing
  then show ?thesis using assms(1) by simp
next
  case (updated old r0 r1)
  let ?new = "update_vms_updated_at now r1"
  have id: "vm_id ?new = vid"
    using vms_coerce_keeps(1) [OF updated(2)] update_vm_costs_vm_id [OF updated(3)]
    by (simp add: update_vms_updated_at_def)
  have ok: "vm_ok ?new" using vm_ok_stamped [OF updated(2,3,4)] .
  have "list_all vm_ok (replace_by vm_id vid ?new (vms d))"
    using assms(1) ok set_replace_by [of vm_id vid ?new "vms d"]
    by (auto simp: valid_db_def list_all_iff)
  moreover have "distinct (map vm_id (replace_by vm_id vid ?new (vms d)))"
    using assms(1) map_key_replace [of vm_id ?new vid "vms d"] id by (simp add: valid_db_def)
  ultimately show ?thesis
    using assms(1) updated(6) by (simp add: valid_db_def log_vm_state_transition_keeps)
qed

lemma insert_projects_cases:
  assumes "insert_projects d n now = Inr d'"
  obtains nm where "select_by project_id (np_id n) (projects d) = None"
    "d' = d\<lparr>projects := projects d @
            [\<lparr>project_id = np_id n, project_name = nm,
              project_description = np_description n, project_user_id = np_user_id n,
              project_created_at = column_or (Some now) (np_created_at n),
              project_updated_at = column_or (Some now) (np_updated_at n)\<rparr>]\<rparr>"
  using assms unfolding insert_projects_def
  by (auto split: option.splits if_splits)

lemma insert_projects_valid:
  assumes "valid_db d" "insert_projects d n now = Inr d'"
  shows "valid_db d'"
  using assms(2)
  by (cases rule: insert_projects_cases) (use assms(1) in \<open>simp add: valid_db_def\<close>)

text \<open>
  An accepted ledger entry is appended as given, and then the spending trigger runs on
  the database that holds it.
\<close>

lemma insert_billing_records_cases:
  assumes "insert_billing_records d n now = Inr d'"
  obtains a row where "varchar 50 (nb_action_type n) = Some a"
    "row = \<lparr>billing_id = nb_id n, billing_user_id = nb_user_id n,
            billing_vm_id = nb_vm_id n, action_type = a, amount = nb_amount n,
            description = nb_description n,
            billing_created_at = column_or (Some now) (nb_created_at n)\<rparr>"
    "numeric_fits 10 (nb_amount n)" "nb_amount n \<noteq> 0"
    "select_by billing_id (nb_id n) (billing_records d) = None"
    "select_by user_id (nb_user_id n) (users d) \<noteq> None"
    "update_user_spending INSERT row (d\<lparr>billing_records := billing_records d @ [row]\<rparr>) now
       = Inr d'"
  using assms unfolding insert_billing_records_def
  by (auto simp: Let_def split: option.splits if_splits)

lemma update_users_keeps:
  assumes "update_users d uid upd now = Inr d'"
  shows "projects d' = projects d" "vms d' = vms d" "billing_records d' = billing_records d"
    "vm_state_transitions d' = vm_state_transitions d"
  using assms by (cases rule: update_users_cases; simp)+

lemma update_user_spending_keeps:
  assumes "update_user_spending op row d now = Inr d'"
  shows "projects d' = projects d" "vms d' = vms d" "billing_records d' = billing_records d"
    "vm_state_transitions d' = vm_state_transitions d"
  using assms update_users_keeps unfolding update_user_spending_def
  by (auto split: if_splits)

lemma update_user_spending_valid:
  assumes "valid_db d" "update_user_spending op row d now = Inr d'"
  shows "valid_db d'"
  using assms update_users_valid unfolding update_user_spending_def
  by (auto split: if_splits)

lemma insert_billing_records_valid:
  assumes "valid_db d" "insert_billing_records d n now = Inr d'"
  shows "valid_db d'"
  using assms(2)
proof (cases rule: insert_billing_records_cases)
  case (1 a row)
  have "billing_ok row"
    using 1(2,3,4) varchar_length [OF 1(1)] by (simp add: billing_ok_def)
  moreover have "billing_id row \<notin> billing_id ` set (billing_records d)"
    using 1(2,5) by (simp add: select_by_None)
  ultimately have "valid_db (d\<lparr>billing_records := billing_records d @ [row]\<rparr>)"
    using assms(1) by (simp add: valid_db_def)
  then show ?thesis using update_user_spending_valid 1(7) by blast
qed

lemma execute_valid:
  assumes "valid_db d" "execute d s now = Inr d'"
  shows "valid_db d'"
  using assms
  by (cases s)
     (auto intro: insert_users_valid update_users_valid insert_projects_valid insert_vms_valid
        update_vms_valid insert_billing_records_valid)

lemma commit_valid: "valid_db d \<Longrightarrow> valid_db (commit d s now)"
  unfolding commit_def using execute_valid by (auto split: sum.splits)

lemma run_valid: "valid_db d \<Longrightarrow> valid_db (run d h)"
  by (induction d h rule: run.induct) (auto intro: commit_valid)

lemma empty_db_valid: "valid_db empty_db"
  unfolding valid_db_def empty_db_def by simp

subsection \<open>New accounts\<close>





subsection \<open>The cost of a VM\<close>

lemma reachable_valid: "valid_db (run empty_db h)"
  using run_valid [OF empty_db_valid] .

lemma valid_db_vm: "valid_db d \<Longrightarrow> r \<in> set (vms d) \<Longrightarrow> vm_ok r"
  unfolding valid_db_def by (simp add: list_all_iff)

lemma valid_db_user: "valid_db d \<Longrightarrow> u \<in> set (users d) \<Longrightarrow> user_ok u"
  unfolding valid_db_def by (simp add: list_all_iff)

lemma valid_db_billing: "valid_db d \<Longrightarrow> r \<in> set (billing_records d) \<Longrightarrow> billing_ok r"
  unfolding valid_db_def by (simp add: list_all_iff)

text \<open>
  C4. The hourly rate follows the instance class: small 0.05, medium 0.10, large 0.20,
  xlarge 0.40, in the trigger and in the pricing calculator alike. In every history of
  statements from the empty database, every VM row holds the rate of its class and a
  total cost equal to rate times uptime hours rounded to two decimals, which is within
  half a hundredth of the exact product; 2.00 hours at 0.05 cost exactly 0.10.
\<close>

theorem vm_cost_accrual:
  "class_rate ''small'' = 500 \<and> class_rate ''medium'' = 1000
   \<and> class_rate ''large'' = 2000 \<and> class_rate ''xlarge'' = 4000
   \<and> (\<forall>t \<in> set instance_types. map_of vmPricing t = Some (class_rate t))
   \<and> (\<forall>r \<in> set (vms (run empty_db h)).
         instance_type r \<in> set instance_types
         \<and> cost_per_hour r = class_rate (instance_type r)
         \<and> total_cost r = map_option (\<lambda>hours. hours_cost hours (cost_per_hour r)) (uptime_hours r))
   \<and> \<bar>10000 * hours_cost hours rate - hours * rate\<bar> \<le> 5000
   \<and> hours_cost 200 500 = 10"
proof -
  have rates: "class_rate ''small'' = 500" "class_rate ''medium'' = 1000"
    "class_rate ''large'' = 2000" "class_rate ''xlarge'' = 4000"
    by (simp_all add: class_rate_def)
  have table: "\<forall>t \<in> set instance_types. map_of vmPricing t = Some (class_rate t)"
    by (simp add: instance_types_def vmPricing_def class_rate_def)
  have rows: "\<forall>r \<in> set (vms (run empty_db h)).
         instance_type r \<in> set instance_types
         \<and> cost_per_hour r = class_rate (instance_type r)
         \<and> total_cost r = map_option (\<lambda>hours. hours_cost hours (cost_per_hour r)) (uptime_hours r)"
    using valid_db_vm [OF reachable_valid] unfolding vm_ok_def by blast
  have err: "\<bar>10000 * hours_cost hours rate - hours * rate\<bar> \<le> 5000"
    unfolding hours_cost_def by (rule round_half_away_error)
  have ex: "hours_cost 200 500 = 10"
    by (simp add: hours_cost_def round_half_away_def)
  show ?thesis using rates table rows err ex by simp
qed

theorem vm_cost_accrual_witness:
  "map (\<lambda>r. (instance_type r, cost_per_hour r, uptime_hours r, total_cost r))
     (vms (run sample_db [(UpdateVM 1 (\<lambda>r. r\<lparr>uptime_hours := Some 200\<rparr>), 7)]))
   = [(''small'', 500, Some 200, Some 10)]"
proof -
  let ?h = "[(InsertUser sample_user, 0), (InsertProject sample_project, 0),
             (InsertVM sample_vm, 0), (UpdateVM 1 (\<lambda>r. r\<lparr>uptime_hours := Some 200\<rparr>), 7)]"
  have same: "run sample_db [(UpdateVM 1 (\<lambda>r. r\<lparr>uptime_hours := Some 200\<rparr>), 7)] = run empty_db ?h"
    by (simp add: sample_db_def)
  have shape: "map (\<lambda>r. (instance_type r, uptime_hours r)) (vms (run empty_db ?h))
                 = [(''small'', Some 200)]"
    by code_simp
  then obtain r where r: "vms (run empty_db ?h) = [r]" "instance_type r = ''small''"
    "uptime_hours r = Some 200" by auto
  then have "r \<in> set (vms (run empty_db ?h))" by simp
  then have "cost_per_hour r = class_rate (instance_type r)"
    "total_cost r = map_option (\<lambda>hours. hours_cost hours (cost_per_hour r)) (uptime_hours r)"
    using vm_cost_accrual [of ?h] by blast+
  then have "cost_per_hour r = 500" "total_cost r = Some 10"
    using r(2,3) vm_cost_accrual [of ?h] by simp_all
  then show ?thesis using r same by simp
qed

subsection \<open>Unknown instance classes\<close>

lemma varchar_instance_type:
  assumes "varchar 20 t = Some t'" "t' \<in> set instance_types"
  shows "t' = t"
proof (cases "length t \<le> 20")
  case True
  then show ?thesis using assms(1) by (simp add: varchar_def)
next
  case False
  then have "t' = take 20 t" using assms(1) by (auto simp: varchar_def split: if_splits)
  then have "length t' = 20" using False by simp
  moreover have "length t' \<le> 6" using assms(2) by (auto simp: instance_types_def)
  ultimately show ?thesis by simp
qed

lemma insert_vms_class:
  assumes "insert_vms d n now = Inr d'"
  shows "nv_instance_type n \<in> set instance_types"
  using assms
proof (cases rule: insert_vms_cases)
  case (1 r0 r)
  have "instance_type r \<in> set instance_types" using vms_check_fields(4) [OF 1(3)] .
  then have "instance_type r0 \<in> set instance_types"
    using update_vm_costs_keeps(3) [OF 1(2)] by simp
  moreover have "varchar 20 (nv_instance_type n) = Some (instance_type r0)"
    using vms_coerce_fields(2) [OF 1(1)] by (simp add: vms_defaults_def)
  ultimately show ?thesis using varchar_instance_type by fastforce
qed

text \<open>
  C5 (as the code has it). The rate lookup of the trigger never fails: for every
  instance type outside small, medium, large and xlarge it returns the fallback 0.05 of
  its \<^verbatim>\<open>ELSE\<close> branch. What keeps an unknown class out is the check of the
  \<^verbatim>\<open>instance_type\<close> column: an insert of a VM of such a class is refused, and in
  no history does a VM row hold one.
\<close>

theorem unknown_class_rejected:
  assumes "t \<notin> set instance_types"
  shows "class_rate t = 500
       \<and> (nv_instance_type n = t \<longrightarrow> isl (insert_vms d n now))
       \<and> (\<forall>r \<in> set (vms (run empty_db h)). instance_type r \<noteq> t)"
proof (intro conjI impI ballI)
  show "class_rate t = 500"
    using assms by (simp add: class_rate_def instance_types_def)
next
  assume "nv_instance_type n = t"
  then show "isl (insert_vms d n now)"
    using assms insert_vms_class [of d n now] by (cases "insert_vms d n now") auto
next
  fix r assume "r \<in> set (vms (run empty_db h))"
  then have "instance_type r \<in> set instance_types"
    using valid_db_vm [OF reachable_valid] unfolding vm_ok_def by blast
  then show "instance_type r \<noteq> t" using assms by auto
qed

theorem unknown_class_rejected_witness:
  "''huge'' \<notin> set instance_types \<and> class_rate ''huge'' = 500
   \<and> isl (insert_vms sample_db (sample_vm\<lparr>nv_id := 2, nv_instance_type := ''huge''\<rparr>) 3)"
proof -
  have h: "''huge'' \<notin> set instance_types" by (simp add: instance_types_def)
  show ?thesis
    using h unknown_class_rejected [OF h, of "sample_vm\<lparr>nv_id := 2, nv_instance_type := ''huge''\<rparr>"
        sample_db 3]
    by simp
qed

text \<open>
  The rate lookup on an unknown class: the trigger run on a row of class
  \<^verbatim>\<open>huge\<close> returns the row with a rate of 0.05, and raises nothing.
\<close>

theorem unknown_class_rate_counterexample:
  "''huge'' \<notin> set instance_types
   \<and> map_sum id cost_per_hour
       (update_vm_costs (vms_defaults 0 (sample_vm\<lparr>nv_instance_type := ''huge''\<rparr>))) = Inr 500"
  by code_simp

subsection \<open>The reason of a ledger entry\<close>

lemma update_users_same_users:
  assumes "users d1 = users d2"
  shows "isl (update_users d1 uid upd now) = isl (update_users d2 uid upd now)"
  using assms unfolding update_users_def
  by (auto simp: Let_def split: option.splits sum.splits)

lemma update_user_spending_same:
  assumes "users d1 = users d2" "amount r1 = amount r2" "billing_user_id r1 = billing_user_id r2"
  shows "isl (update_user_spending op r1 d1 now) = isl (update_user_spending op r2 d2 now)"
  using assms update_users_same_users [OF assms(1)] unfolding update_user_spending_def
  by simp

lemma insert_billing_records_reason:
  assumes "length a \<le> 50" "length b \<le> 50"
  shows "isl (insert_billing_records d (n\<lparr>nb_action_type := a\<rparr>) now)
       = isl (insert_billing_records d (n\<lparr>nb_action_type := b\<rparr>) now)"
  using assms unfolding insert_billing_records_def
  by (simp add: varchar_short Let_def update_user_spending_same)

text \<open>
  C8 (as the code has it). The reason of a ledger entry is whatever string of at most
  50 characters the insert gives: \<^verbatim>\<open>action_type\<close> is a \<^verbatim>\<open>VARCHAR(50)\<close>
  with no check on its value. An accepted entry is appended with the reason given (cut
  to 50 characters when only spaces are cut); whether an entry is accepted does not
  depend on which reason of up to 50 characters it carries; and in every history every
  recorded reason has at most 50 characters.
\<close>

theorem ledger_reason_unconstrained:
  "(\<forall>d'. insert_billing_records d n now = Inr d' \<longrightarrow>
      (\<exists>row. billing_records d' = billing_records d @ [row]
             \<and> varchar 50 (nb_action_type n) = Some (action_type row)
             \<and> length (action_type row) \<le> 50))
   \<and> (length a \<le> 50 \<and> length b \<le> 50 \<longrightarrow>
        isl (insert_billing_records d (n\<lparr>nb_action_type := a\<rparr>) now)
        = isl (insert_billing_records d (n\<lparr>nb_action_type := b\<rparr>) now))
   \<and> (\<forall>r \<in> set (billing_records (run empty_db h)). length (action_type r) \<le> 50)"
proof (intro conjI allI impI ballI)
  fix d'
  assume "insert_billing_records d n now = Inr d'"
  then show "\<exists>row. billing_records d' = billing_records d @ [row]
             \<and> varchar 50 (nb_action_type n) = Some (action_type row)
             \<and> length (action_type row) \<le> 50"
  proof (cases rule: insert_billing_records_cases)
    case (1 x row)
    have "billing_records d' = billing_records d @ [row]"
      using update_user_spending_keeps(3) [OF 1(7)] by simp
    moreover have "action_type row = x" using 1(2) by simp
    ultimately show ?thesis using 1(1) varchar_length [OF 1(1)] by auto
  qed
next
  assume "length a \<le> 50 \<and> length b \<le> 50"
  then show "isl (insert_billing_records d (n\<lparr>nb_action_type := a\<rparr>) now)
        = isl (insert_billing_records d (n\<lparr>nb_action_type := b\<rparr>) now)"
    using insert_billing_records_reason by blast
next
  fix r assume "r \<in> set (billing_records (run empty_db h))"
  then show "length (action_type r) \<le> 50"
    using valid_db_billing [OF reachable_valid] unfolding billing_ok_def by blast
qed

theorem ledger_reason_unconstrained_witness:
  "map action_type
     (billing_records (commit sample_db
        (InsertBilling (sample_entry\<lparr>nb_action_type := ''refund''\<rparr>)) 5)) = [''refund'']"
proof -
  let ?n = "sample_entry\<lparr>nb_action_type := ''refund''\<rparr>"
  have "billing_records sample_db = []" by code_simp
  moreover have "\<not> isl (insert_billing_records sample_db ?n 5)" by code_simp
  then obtain d' where d': "insert_billing_records sample_db ?n 5 = Inr d'"
    by (cases "insert_billing_records sample_db ?n 5") auto
  moreover from d' obtain row where "billing_records d' = billing_records sample_db @ [row]"
    "varchar 50 (nb_action_type ?n) = Some (action_type row)"
    using ledger_reason_unconstrained [of sample_db ?n 5] by blast
  moreover have "varchar 50 (nb_action_type ?n) = Some ''refund''"
    by (simp add: varchar_def sample_entry_def)
  ultimately show ?thesis by (simp add: commit_def)
qed

text \<open>
  An entry whose reason is \<^verbatim>\<open>credit_deduct\<close>, a value outside the four of the
  specification that the billing dashboard has a colour of its own for, is accepted and
  recorded.
\<close>

theorem ledger_reason_counterexample:
  "''credit_deduct'' \<notin> set ledger_reasons
   \<and> map action_type
       (billing_records (commit sample_db
          (InsertBilling (sample_entry\<lparr>nb_action_type := ''credit_deduct''\<rparr>)) 5))
     = [''credit_deduct'']
   \<and> getActionTypeColor ''credit_deduct'' = ''bg-red-100 text-red-800''
   \<and> getActionTypeColor ''manual_adjustment'' = ''bg-gray-100 text-gray-800''"
  by code_simp

subsection \<open>What a ledger append does to the account\<close>

lemma users_coerce_short:
  assumes "users_coerce r = Inr r'" "length (email r) \<le> 255" "length (user_name r) \<le> 100"
    "length (hashed_password r) \<le> 255"
  shows "r' = r"
  using assms unfolding users_coerce_def
  by (auto simp: varchar_short split: if_splits)

lemma add_amount_keeps:
  "user_id (add_amount a u) = user_id u" "email (add_amount a u) = email u"
  "user_name (add_amount a u) = user_name u" "hashed_password (add_amount a u) = hashed_password u"
  "credits (add_amount a u) = credits u"
  unfolding add_amount_def by simp_all

text \<open>
  When a ledger entry is accepted: its reason and its amount fit their columns, the
  amount is not zero, its id is new, its account and its VM exist, and the new total of
  the account still fits \<^verbatim>\<open>total_spent\<close>.
\<close>

lemma insert_billing_records_accepted:
  assumes "valid_db d" "length (nb_action_type n) \<le> 50" "numeric_fits 10 (nb_amount n)"
    "nb_amount n \<noteq> 0" "select_by billing_id (nb_id n) (billing_records d) = None"
    "select_by user_id (nb_user_id n) (users d) = Some u"
    "null_or (\<lambda>v. select_by vm_id v (vms d) \<noteq> None) (nb_vm_id n)"
    "null_or (\<lambda>t. numeric_fits 10 (round_half_away (100 * t + nb_amount n) 100)) (total_spent u)"
  shows "\<exists>d'. insert_billing_records d n now = Inr d'"
proof (cases "0 < nb_amount n")
  case False
  then show ?thesis
    using assms(2-7) unfolding insert_billing_records_def
    by (simp add: varchar_short Let_def update_user_spending_def)
next
  case True
  let ?uid = "nb_user_id n"
  let ?new = "add_amount (nb_amount n) u"
  have u: "u \<in> set (users d)" "user_id u = ?uid" using select_by_Some [OF assms(6)] by simp_all
  have ok: "user_ok u" using valid_db_user [OF assms(1) u(1)] .
  have fits: "null_or (numeric_fits 10) (total_spent ?new)"
    using assms(8) by (cases "total_spent u") (simp_all add: add_amount_def null_or_def)
  have nonneg: "null_or (\<lambda>t. 0 \<le> t) (total_spent ?new)"
  proof (cases "total_spent u")
    case None
    then show ?thesis by (simp add: add_amount_def null_or_def)
  next
    case (Some t)
    then have "0 \<le> t" using ok by (simp add: user_ok_def null_or_def)
    then have "0 \<le> round_half_away (100 * t + nb_amount n) 100"
      using round_half_away_grows [OF True, of t] by simp
    then show ?thesis using Some by (simp add: add_amount_def null_or_def)
  qed
  have coerce: "users_coerce (?new\<lparr>user_id := ?uid\<rparr>) = Inr ?new"
    using ok fits u(2) unfolding users_coerce_def user_ok_def
    by (simp add: add_amount_keeps varchar_short)
  have check: "users_check (update_users_updated_at now ?new) = None"
    using ok nonneg unfolding users_check_def user_ok_def update_users_updated_at_def
    by (simp add: add_amount_keeps)
  have "email (update_users_updated_at now ?new) = email u"
    by (simp add: add_amount_keeps update_users_updated_at_def)
  then have "\<exists>d'. update_users (d\<lparr>billing_records := billing_records d @
       [\<lparr>billing_id = nb_id n, billing_user_id = ?uid, billing_vm_id = nb_vm_id n,
         action_type = nb_action_type n, amount = nb_amount n,
         description = nb_description n,
         billing_created_at = column_or (Some now) (nb_created_at n)\<rparr>]\<rparr>)
       ?uid (add_amount (nb_amount n)) now = Inr d'"
    using assms(6) coerce check unfolding update_users_def by (simp add: Let_def)
  then show ?thesis
    using True assms(2-7) unfolding insert_billing_records_def
    by (simp add: varchar_short Let_def update_user_spending_def)
qed

text \<open>What the spending trigger does to the row of the account it finds.\<close>

lemma update_user_spending_row:
  assumes "user_ok u" "select_by user_id (billing_user_id row) (users d) = Some u"
    "0 < amount row" "update_user_spending INSERT row d now = Inr d'"
  shows "users d' = replace_by user_id (billing_user_id row)
           (u\<lparr>total_spent := map_option (\<lambda>t. round_half_away (100 * t + amount row) 100)
                                (total_spent u),
              user_updated_at := Some now\<rparr>) (users d)"
proof -
  let ?uid = "billing_user_id row"
  have upd: "update_users d ?uid (add_amount (amount row)) now = Inr d'"
    using assms(3,4) by (simp add: update_user_spending_def)
  have id: "user_id u = ?uid" using select_by_Some [OF assms(2)] by simp
  from upd show ?thesis
  proof (cases rule: update_users_cases)
    case missing
    then show ?thesis using assms(2) by simp
  next
    case (updated old new0)
    have old: "old = u" using updated(1) assms(2) by simp
    have "(add_amount (amount row) u)\<lparr>user_id := ?uid\<rparr> = add_amount (amount row) u"
      using id by (simp add: add_amount_def)
    then have "users_coerce (add_amount (amount row) u) = Inr new0"
      using updated(2) old by simp
    then have "new0 = add_amount (amount row) u"
      using assms(1) by (intro users_coerce_short) (simp_all add: add_amount_keeps user_ok_def)
    then show ?thesis
      using updated(5) by (simp add: add_amount_def update_users_updated_at_def)
  qed
qed

text \<open>
  C10 (as the code has it). Appending a ledger entry with a strictly positive amount
  sets the owning account's \<^verbatim>\<open>total_spent\<close> to the old total plus the amount,
  rounded to two decimals, whatever the reason of the entry; that is an increase by
  exactly the amount when the amount is a whole number of hundredths. The same update
  stamps the account's \<^verbatim>\<open>updated_at\<close>, and changes no other column. Appending an
  entry with a negative amount leaves every account as it was. No project and no VM is
  touched either way.
\<close>

theorem ledger_append_total_spent:
  assumes "valid_db d" "select_by user_id (nb_user_id n) (users d) = Some u"
    "insert_billing_records d n now = Inr d'"
  shows "(0 < nb_amount n \<longrightarrow>
           users d' = replace_by user_id (nb_user_id n)
             (u\<lparr>total_spent := map_option (\<lambda>t. round_half_away (100 * t + nb_amount n) 100)
                                  (total_spent u),
                user_updated_at := Some now\<rparr>) (users d))
       \<and> (0 < nb_amount n \<and> 100 dvd nb_amount n \<longrightarrow>
           total_spent_of d' (nb_user_id n)
           = map_option (\<lambda>t. t + nb_amount n div 100) (total_spent u))
       \<and> (nb_amount n < 0 \<longrightarrow> users d' = users d)
       \<and> projects d' = projects d \<and> vms d' = vms d"
  using assms(3)
proof (cases rule: insert_billing_records_cases)
  case (1 a row)
  let ?d1 = "d\<lparr>billing_records := billing_records d @ [row]\<rparr>"
  have row: "amount row = nb_amount n" "billing_user_id row = nb_user_id n" using 1(2) by simp_all
  have ok: "user_ok u"
    using valid_db_user [OF assms(1)] select_by_Some [OF assms(2)] by blast
  have sel: "select_by user_id (billing_user_id row) (users ?d1) = Some u"
    using assms(2) row by simp
  have id: "user_id u = nb_user_id n" using select_by_Some [OF assms(2)] by simp
  have pos: "users d' = replace_by user_id (nb_user_id n)
             (u\<lparr>total_spent := map_option (\<lambda>t. round_half_away (100 * t + nb_amount n) 100)
                                  (total_spent u),
                user_updated_at := Some now\<rparr>) (users d)" if "0 < nb_amount n"
    using update_user_spending_row [OF ok sel _ 1(7)] that row by simp
  have exact: "total_spent_of d' (nb_user_id n)
           = map_option (\<lambda>t. t + nb_amount n div 100) (total_spent u)"
    if p: "0 < nb_amount n" and dv: "100 dvd nb_amount n"
  proof -
    obtain c where c: "nb_amount n = 100 * c" using dv by (auto elim: dvdE)
    have "total_spent_of d' (nb_user_id n)
            = map_option (\<lambda>t. round_half_away (100 * t + nb_amount n) 100) (total_spent u)"
      unfolding total_spent_of_def pos [OF p]
      using select_by_replace_same [OF assms(2)] id by simp
    then show ?thesis using c by (simp add: round_half_away_add_exact)
  qed
  have neg: "users d' = users d" if "nb_amount n < 0"
    using 1(7) that row by (auto simp: update_user_spending_def)
  have "projects d' = projects d" "vms d' = vms d"
    using update_user_spending_keeps(1,2) [OF 1(7)] by simp_all
  then show ?thesis using pos exact neg by blast
qed

theorem ledger_append_total_spent_witness:
  "total_spent_of sample_db 1 = Some 0
   \<and> total_spent_of (commit sample_db (InsertBilling sample_entry) 5) 1 = Some 10"
proof -
  have v: "valid_db sample_db" unfolding sample_db_def by (rule run_valid [OF empty_db_valid])
  have "\<not> isl (insert_billing_records sample_db sample_entry 5)" by code_simp
  then obtain d' where d': "insert_billing_records sample_db sample_entry 5 = Inr d'"
    by (cases "insert_billing_records sample_db sample_entry 5") auto
  have "\<not> Option.is_none (select_by user_id (nb_user_id sample_entry) (users sample_db))"
    by code_simp
  then obtain u where u: "select_by user_id (nb_user_id sample_entry) (users sample_db) = Some u"
    by (auto simp: Option.is_none_def)
  have t0: "total_spent_of sample_db 1 = Some 0" by code_simp
  have n: "nb_user_id sample_entry = 1" "nb_amount sample_entry = 1000"
    by (simp_all add: sample_entry_def)
  have "total_spent u = Some 0" using t0 u n by (simp add: total_spent_of_def)
  moreover have "total_spent_of d' (nb_user_id sample_entry)
           = map_option (\<lambda>t. t + nb_amount sample_entry div 100) (total_spent u)"
    using ledger_append_total_spent [OF v u d'] n by simp
  ultimately show ?thesis using t0 d' n by (simp add: commit_def)
qed

text \<open>
  An entry of 0.0040, a strictly positive amount, is appended, and the account's
  \<^verbatim>\<open>total_spent\<close> is still 0.00 afterwards: it did not grow by the amount. The
  account's \<^verbatim>\<open>updated_at\<close> did change, from 0 to the time of the insert.
\<close>

theorem ledger_append_counterexample:
  "total_spent_of sample_db 1 = Some 0
   \<and> map amount (billing_records (commit sample_db
        (InsertBilling (sample_entry\<lparr>nb_amount := 40\<rparr>)) 5)) = [40]
   \<and> total_spent_of (commit sample_db (InsertBilling (sample_entry\<lparr>nb_amount := 40\<rparr>)) 5) 1
     = Some 0
   \<and> map user_updated_at (users sample_db) = [Some 0]
   \<and> map user_updated_at (users (commit sample_db
        (InsertBilling (sample_entry\<lparr>nb_amount := 40\<rparr>)) 5)) = [Some 5]"
  by code_simp

subsection \<open>The total spent never decreases\<close>

lemma option_le_refl: "option_le a a"
  by (cases a) simp_all

lemma option_le_trans: "option_le a b \<Longrightarrow> option_le b c \<Longrightarrow> option_le a c"
  by (cases a; cases b; cases c) simp_all

lemma insert_users_keeps_row:
  assumes "insert_users d n now = Inr d'" "select_by user_id uid (users d) = Some u"
  shows "select_by user_id uid (users d') = Some u"
  using assms(1)
  by (cases rule: insert_users_cases) (use assms(2) in \<open>simp add: select_by_append\<close>)

lemma insert_projects_keeps:
  assumes "insert_projects d n now = Inr d'"
  shows "users d' = users d" "vms d' = vms d" "billing_records d' = billing_records d"
  using assms by (cases rule: insert_projects_cases; simp)+

lemma insert_vms_keeps:
  assumes "insert_vms d n now = Inr d'"
  shows "users d' = users d" "billing_records d' = billing_records d"
  using assms by (cases rule: insert_vms_cases; simp)+

lemma update_vms_keeps:
  assumes "update_vms d vid upd now = Inr d'"
  shows "users d' = users d" "billing_records d' = billing_records d"
  using assms
  by (cases rule: update_vms_cases; simp add: log_vm_state_transition_keeps)+

text \<open>
  An update of \<^verbatim>\<open>users\<close> leaves every other row alone, and gives the row it
  finds the columns of the \<^verbatim>\<open>SET\<close> list that are not strings.
\<close>

lemma update_users_row:
  assumes "update_users d uid upd now = Inr d'" "select_by user_id uid' (users d) = Some u"
  shows "\<exists>u'. select_by user_id uid' (users d') = Some u'
            \<and> (uid' \<noteq> uid \<longrightarrow> u' = u)
            \<and> (uid' = uid \<longrightarrow> credits u' = credits (upd u)
                               \<and> total_spent u' = total_spent (upd u))"
  using assms(1)
proof (cases rule: update_users_cases)
  case missing
  then show ?thesis using assms(2) by auto
next
  case (updated old new0)
  let ?new = "update_users_updated_at now new0"
  have id: "user_id ?new = uid"
    using users_coerce_keeps(1) [OF updated(2)] by (simp add: update_users_updated_at_def)
  show ?thesis
  proof (cases "uid' = uid")
    case True
    then have "old = u" using updated(1) assms(2) by simp
    then have "credits ?new = credits (upd u)" "total_spent ?new = total_spent (upd u)"
      using users_coerce_keeps(2,3) [OF updated(2)] by (simp_all add: update_users_updated_at_def)
    then show ?thesis
      using True updated(5) select_by_replace_same [OF updated(1) id] by simp
  next
    case False
    then show ?thesis
      using updated(5) assms(2) id False
        select_by_replace_other [of uid' uid user_id ?new "users d"] by simp
  qed
qed

lemma update_user_spending_grows:
  assumes "update_user_spending op row d now = Inr d'" "select_by user_id uid (users d) = Some u"
  shows "\<exists>u'. select_by user_id uid (users d') = Some u' \<and> credits u' = credits u
            \<and> option_le (total_spent u) (total_spent u')"
proof (cases "op = INSERT \<and> 0 < amount row")
  case False
  then have "d' = d" using assms(1) by (auto simp: update_user_spending_def)
  then show ?thesis using assms(2) by (simp add: option_le_refl)
next
  case True
  then have "update_users d (billing_user_id row) (add_amount (amount row)) now = Inr d'"
    using assms(1) by (simp add: update_user_spending_def)
  from update_users_row [OF this assms(2)] obtain u' where u':
    "select_by user_id uid (users d') = Some u'" "uid \<noteq> billing_user_id row \<longrightarrow> u' = u"
    "uid = billing_user_id row \<longrightarrow> credits u' = credits (add_amount (amount row) u)
        \<and> total_spent u' = total_spent (add_amount (amount row) u)"
    by blast
  have "option_le (total_spent u) (total_spent (add_amount (amount row) u))"
    using True round_half_away_grows [of "amount row"]
    by (cases "total_spent u") (simp_all add: add_amount_def)
  then show ?thesis
    using u' by (cases "uid = billing_user_id row") (auto simp: add_amount_keeps option_le_refl)
qed

lemma insert_billing_records_grows:
  assumes "insert_billing_records d n now = Inr d'" "select_by user_id uid (users d) = Some u"
  shows "\<exists>u'. select_by user_id uid (users d') = Some u' \<and> credits u' = credits u
            \<and> option_le (total_spent u) (total_spent u')"
  using assms(1)
proof (cases rule: insert_billing_records_cases)
  case (1 a row)
  show ?thesis
    using update_user_spending_grows [OF 1(7), of uid u] assms(2) by simp
qed

lemma commit_total_spent:
  assumes "keeps_total_spent s" "select_by user_id uid (users d) = Some u"
  shows "\<exists>u'. select_by user_id uid (users (commit d s now)) = Some u'
            \<and> option_le (total_spent u) (total_spent u')"
proof (cases "execute d s now")
  case (Inl e)
  then show ?thesis using assms(2) by (simp add: commit_def option_le_refl)
next
  case (Inr d')
  have "\<exists>u'. select_by user_id uid (users d') = Some u'
            \<and> option_le (total_spent u) (total_spent u')"
  proof (cases s)
    case (InsertUser n)
    then show ?thesis
      using Inr insert_users_keeps_row [OF _ assms(2)] by (auto simp: option_le_refl)
  next
    case (UpdateUser k upd)
    then have "update_users d k upd now = Inr d'" using Inr by simp
    from update_users_row [OF this assms(2)] show ?thesis
      using assms(1) UpdateUser by (cases "uid = k") (auto simp: option_le_refl)
  next
    case (InsertProject n)
    then show ?thesis
      using Inr insert_projects_keeps(1) [of d n now d'] assms(2) by (simp add: option_le_refl)
  next
    case (InsertVM n)
    then show ?thesis
      using Inr insert_vms_keeps(1) [of d n now d'] assms(2) by (simp add: option_le_refl)
  next
    case (UpdateVM k upd)
    then show ?thesis
      using Inr update_vms_keeps(1) [of d k upd now d'] assms(2) by (simp add: option_le_refl)
  next
    case (InsertBilling n)
    then show ?thesis
      using Inr insert_billing_records_grows [of d n now d' uid u] assms(2) by auto
  qed
  then show ?thesis using Inr by (simp add: commit_def)
qed

text \<open>
  C6. In every history of statements that do not assign \<^verbatim>\<open>total_spent\<close>
  themselves (inserts of accounts, projects, VMs and ledger entries, updates of VMs, and
  updates of an account's other columns such as its credits), the
  \<^verbatim>\<open>total_spent\<close> of every account never decreases: the only writer of the
  column is the spending trigger, which adds positive amounts.
\<close>

theorem total_spent_monotone:
  assumes "\<forall>s \<in> set (map fst h). keeps_total_spent s"
    "select_by user_id uid (users d) = Some u"
  shows "\<exists>u'. select_by user_id uid (users (run d h)) = Some u'
            \<and> option_le (total_spent u) (total_spent u')"
  using assms
proof (induction h arbitrary: d u)
  case Nil
  then show ?case by (simp add: option_le_refl)
next
  case (Cons x h)
  obtain s now where x: "x = (s, now)" by (cases x)
  then have k: "keeps_total_spent s" using Cons.prems(1) by simp
  from commit_total_spent [OF k Cons.prems(2), of now] obtain u1 where u1:
    "select_by user_id uid (users (commit d s now)) = Some u1"
    "option_le (total_spent u) (total_spent u1)" by blast
  have "\<forall>s \<in> set (map fst h). keeps_total_spent s" using Cons.prems(1) by simp
  from Cons.IH [OF this u1(1)] obtain u' where
    "select_by user_id uid (users (run (commit d s now) h)) = Some u'"
    "option_le (total_spent u1) (total_spent u')" by blast
  then show ?case using x u1(2) option_le_trans by auto
qed

theorem total_spent_monotone_witness:
  "total_spent_of sample_db 1 = Some 0
   \<and> total_spent_of
       (run sample_db
          [(InsertBilling sample_entry, 5),
           (UpdateUser 1 (\<lambda>u. u\<lparr>credits := Some 6000\<rparr>), 6),
           (UpdateVM 1 (\<lambda>r. r\<lparr>status := ''stopped''\<rparr>), 7),
           (InsertBilling (sample_entry\<lparr>nb_id := 2, nb_amount := - 500\<rparr>), 8)]) 1
     = Some 10"
proof -
  let ?h = "[(InsertBilling sample_entry, 5),
           (UpdateUser 1 (\<lambda>u. u\<lparr>credits := Some 6000\<rparr>), 6),
           (UpdateVM 1 (\<lambda>r. r\<lparr>status := ''stopped''\<rparr>), 7),
           (InsertBilling (sample_entry\<lparr>nb_id := 2, nb_amount := - 500\<rparr>), 8)]"
  have k: "\<forall>s \<in> set (map fst ?h). keeps_total_spent s" by simp
  have t0: "total_spent_of sample_db 1 = Some 0" by code_simp
  then obtain u where u: "select_by user_id 1 (users sample_db) = Some u" "total_spent u = Some 0"
    by (auto simp: total_spent_of_def split: option.splits)
  from total_spent_monotone [OF k u(1)] obtain u' where u':
    "select_by user_id 1 (users (run sample_db ?h)) = Some u'"
    "option_le (total_spent u) (total_spent u')" by blast
  have "total_spent_of (run sample_db ?h) 1 = Some 10" by code_simp
  then show ?thesis using t0 u' by simp
qed

subsection \<open>The ledger and the materialized balance\<close>










subsection \<open>The hourly rate of a VM does not change\<close>

lemma known_class_short: "t \<in> set instance_types \<Longrightarrow> varchar 20 t = Some t"
  unfolding instance_types_def by (auto simp: varchar_def)

text \<open>
  An update of \<^verbatim>\<open>vms\<close> that does not assign the instance type leaves the row
  with its class and with the rate of its class, whatever else it assigns.
\<close>

lemma update_vms_row:
  assumes "update_vms d k upd now = Inr d'" "select_by vm_id vid (vms d) = Some r"
    "instance_type r \<in> set instance_types" "cost_per_hour r = class_rate (instance_type r)"
    "\<forall>x. instance_type (upd x) = instance_type x"
  shows "\<exists>r'. select_by vm_id vid (vms d') = Some r' \<and> instance_type r' = instance_type r
            \<and> cost_per_hour r' = cost_per_hour r"
  using assms(1)
proof (cases rule: update_vms_cases)
  case missing
  then show ?thesis using assms(2) by simp
next
  case (updated old r0 r1)
  let ?new = "update_vms_updated_at now r1"
  have id: "vm_id ?new = k"
    using vms_coerce_keeps(1) [OF updated(2)] update_vm_costs_vm_id [OF updated(3)]
    by (simp add: update_vms_updated_at_def)
  have vms: "vms d' = replace_by vm_id k ?new (vms d)"
    using updated(6) by (simp add: log_vm_state_transition_keeps)
  show ?thesis
  proof (cases "vid = k")
    case True
    then have old: "old = r" using updated(1) assms(2) by simp
    have "varchar 20 (instance_type r) = Some (instance_type r0)"
      using vms_coerce_fields(2) [OF updated(2)] assms(5) old by simp
    then have t: "instance_type r0 = instance_type r"
      using known_class_short [OF assms(3)] by simp
    have "instance_type ?new = instance_type r" "cost_per_hour ?new = cost_per_hour r"
      using update_vm_costs_keeps(3,14) [OF updated(3)] t assms(4)
      by (simp_all add: update_vms_updated_at_def)
    then show ?thesis
      using True vms updated(1) id select_by_replace_same [of vm_id k "vms d" old ?new] by simp
  next
    case False
    then show ?thesis
      using vms assms(2) id select_by_replace_other [of vid k vm_id ?new "vms d"] by simp
  qed
qed

lemma insert_vms_keeps_row:
  assumes "insert_vms d n now = Inr d'" "select_by vm_id vid (vms d) = Some r"
  shows "select_by vm_id vid (vms d') = Some r"
  using assms(1)
  by (cases rule: insert_vms_cases) (use assms(2) in \<open>simp add: select_by_append\<close>)

lemma insert_users_keeps:
  assumes "insert_users d n now = Inr d'"
  shows "vms d' = vms d" "billing_records d' = billing_records d"
  using assms by (cases rule: insert_users_cases; simp)+

lemma insert_billing_records_keeps:
  assumes "insert_billing_records d n now = Inr d'"
  shows "vms d' = vms d" "projects d' = projects d"
proof -
  from assms show "vms d' = vms d"
    by (cases rule: insert_billing_records_cases)
       (use update_user_spending_keeps(2) in fastforce)
  from assms show "projects d' = projects d"
    by (cases rule: insert_billing_records_cases)
       (use update_user_spending_keeps(1) in fastforce)
qed

lemma commit_cost_per_hour:
  assumes "keeps_instance_type s" "select_by vm_id vid (vms d) = Some r"
    "instance_type r \<in> set instance_types" "cost_per_hour r = class_rate (instance_type r)"
  shows "\<exists>r'. select_by vm_id vid (vms (commit d s now)) = Some r'
            \<and> instance_type r' = instance_type r \<and> cost_per_hour r' = cost_per_hour r"
proof (cases "execute d s now")
  case (Inl e)
  then show ?thesis using assms(2) by (simp add: commit_def)
next
  case (Inr d')
  have "\<exists>r'. select_by vm_id vid (vms d') = Some r'
            \<and> instance_type r' = instance_type r \<and> cost_per_hour r' = cost_per_hour r"
  proof (cases s)
    case (InsertUser n)
    then show ?thesis using Inr insert_users_keeps(1) [of d n now d'] assms(2) by simp
  next
    case (UpdateUser k upd)
    then show ?thesis using Inr update_users_keeps(2) [of d k upd now d'] assms(2) by simp
  next
    case (InsertProject n)
    then show ?thesis using Inr insert_projects_keeps(2) [of d n now d'] assms(2) by simp
  next
    case (InsertVM n)
    then show ?thesis using Inr insert_vms_keeps_row [of d n now d' vid r] assms(2) by simp
  next
    case (UpdateVM k upd)
    then have "update_vms d k upd now = Inr d'" "\<forall>x. instance_type (upd x) = instance_type x"
      using Inr assms(1) by simp_all
    from update_vms_row [OF this(1) assms(2,3,4) this(2)] show ?thesis .
  next
    case (InsertBilling n)
    then show ?thesis using Inr insert_billing_records_keeps(1) [of d n now d'] assms(2) by simp
  qed
  then show ?thesis using Inr by (simp add: commit_def)
qed

lemma run_cost_per_hour:
  assumes "\<forall>s \<in> set (map fst h). keeps_instance_type s" "select_by vm_id vid (vms d) = Some r"
    "instance_type r \<in> set instance_types" "cost_per_hour r = class_rate (instance_type r)"
  shows "\<exists>r'. select_by vm_id vid (vms (run d h)) = Some r'
            \<and> instance_type r' = instance_type r \<and> cost_per_hour r' = cost_per_hour r"
  using assms
proof (induction h arbitrary: d r)
  case Nil
  then show ?case by simp
next
  case (Cons x h)
  obtain s now where x: "x = (s, now)" by (cases x)
  then have "keeps_instance_type s" using Cons.prems(1) by simp
  from commit_cost_per_hour [OF this Cons.prems(2,3,4), of now] obtain r1 where r1:
    "select_by vm_id vid (vms (commit d s now)) = Some r1"
    "instance_type r1 = instance_type r" "cost_per_hour r1 = cost_per_hour r" by blast
  have "\<forall>s \<in> set (map fst h). keeps_instance_type s" using Cons.prems(1) by simp
  from Cons.IH [OF this r1(1)] r1(2,3) Cons.prems(3,4) show ?case using x by auto
qed

text \<open>
  C7. The \<^verbatim>\<open>cost_per_hour\<close> of a VM is fixed when its row is inserted, as the
  rate of its instance class, and no later statement changes it: in every history of
  statements that do not assign the instance type (the updates of status, uptime, cost
  and timestamps that start, stop, restart and delete make, and every insert and every
  update of another table), the row is still there with the \<^verbatim>\<open>cost_per_hour\<close>
  it was created with, even when an update assigns another value to the column.
\<close>

theorem cost_per_hour_immutable:
  assumes "insert_vms d n now = Inr d1" "\<forall>s \<in> set (map fst h). keeps_instance_type s"
  shows "\<exists>r1 r. select_by vm_id (nv_id n) (vms d1) = Some r1
              \<and> cost_per_hour r1 = class_rate (nv_instance_type n)
              \<and> select_by vm_id (nv_id n) (vms (run d1 h)) = Some r
              \<and> cost_per_hour r = cost_per_hour r1"
  using assms(1)
proof (cases rule: insert_vms_cases)
  case (1 r0 r1)
  have known: "nv_instance_type n \<in> set instance_types" using insert_vms_class [OF assms(1)] .
  have "varchar 20 (nv_instance_type n) = Some (instance_type r0)"
    using vms_coerce_fields(2) [OF 1(1)] by (simp add: vms_defaults_def)
  then have "instance_type r0 = nv_instance_type n" using known_class_short [OF known] by simp
  then have t: "instance_type r1 = nv_instance_type n"
    "cost_per_hour r1 = class_rate (nv_instance_type n)"
    using update_vm_costs_keeps(3,14) [OF 1(2)] by simp_all
  have "vm_id r1 = nv_id n"
    using vms_coerce_keeps(1) [OF 1(1)] update_vm_costs_vm_id [OF 1(2)]
    by (simp add: vms_defaults_def)
  then have sel: "select_by vm_id (nv_id n) (vms d1) = Some r1"
    using 1(4,6) by (simp add: select_by_append)
  from run_cost_per_hour [OF assms(2) sel] t known obtain r where
    "select_by vm_id (nv_id n) (vms (run d1 h)) = Some r" "cost_per_hour r = cost_per_hour r1"
    by auto
  then show ?thesis using sel t(2) by blast
qed

theorem cost_per_hour_immutable_witness:
  "map cost_per_hour (vms sample_db) = [500]
   \<and> map (\<lambda>r. (status r, uptime_hours r, cost_per_hour r))
       (vms (run sample_db
          [(UpdateVM 1 (\<lambda>r. r\<lparr>status := ''stopped'', uptime_hours := Some 300,
                                  cost_per_hour := 9999\<rparr>), 4),
           (UpdateVM 1 (\<lambda>r. r\<lparr>status := ''running'', last_started := Some 5\<rparr>), 5),
           (UpdateVM 1 (\<lambda>r. r\<lparr>status := ''terminated''\<rparr>), 6)]))
     = [(''terminated'', Some 300, 500)]"
proof -
  let ?d = "run empty_db [(InsertUser sample_user, 0), (InsertProject sample_project, 0)]"
  let ?h = "[(UpdateVM 1 (\<lambda>r. r\<lparr>status := ''stopped'', uptime_hours := Some 300,
                                  cost_per_hour := 9999\<rparr>), 4),
           (UpdateVM 1 (\<lambda>r. r\<lparr>status := ''running'', last_started := Some 5\<rparr>), 5),
           (UpdateVM 1 (\<lambda>r. r\<lparr>status := ''terminated''\<rparr>), 6)]"
  have k: "\<forall>s \<in> set (map fst ?h). keeps_instance_type s" by simp
  have "insert_vms ?d sample_vm 0 = Inr sample_db" by code_simp
  from cost_per_hour_immutable [OF this k] obtain r1 r where r:
    "select_by vm_id (nv_id sample_vm) (vms sample_db) = Some r1"
    "cost_per_hour r1 = class_rate (nv_instance_type sample_vm)"
    "select_by vm_id (nv_id sample_vm) (vms (run sample_db ?h)) = Some r"
    "cost_per_hour r = cost_per_hour r1" by blast
  have "map (\<lambda>r. (vm_id r, status r, uptime_hours r)) (vms (run sample_db ?h))
          = [(1, ''terminated'', Some 300)]" by code_simp
  then obtain x where x: "vms (run sample_db ?h) = [x]" "vm_id x = 1" "status x = ''terminated''"
    "uptime_hours x = Some 300" by auto
  have "nv_id sample_vm = 1" "class_rate (nv_instance_type sample_vm) = 500"
    by (simp_all add: sample_vm_def class_rate_def)
  then have "cost_per_hour x = 500" using r x by (simp add: select_by_def)
  moreover have "map cost_per_hour (vms sample_db) = [500]" by code_simp
  ultimately show ?thesis using x by simp
qed

subsection \<open>The lifecycle and the state table\<close>

text \<open>Which events the lifecycle accepts, and the status they end in.\<close>

lemma transition_table: "transition st st' = Inr st'' \<Longrightarrow> st'' = st' \<and> state_table st st'"
  unfolding transition_def by (auto split: if_splits)









subsection \<open>The balance is never negative\<close>

lemma update_users_checked:
  assumes "update_users d uid upd now = Inr d'" "select_by user_id uid (users d) = Some u"
  shows "null_or (\<lambda>c. 0 \<le> c) (credits (upd u))"
  using assms(1)
proof (cases rule: update_users_cases)
  case missing
  then show ?thesis using assms(2) by simp
next
  case (updated old new0)
  have "null_or (\<lambda>c. 0 \<le> c) (credits new0)"
    using updated(3) unfolding users_check_def update_users_updated_at_def
    by (auto split: if_splits)
  then show ?thesis
    using users_coerce_keeps(2) [OF updated(2)] updated(1) assms(2) by simp
qed

text \<open>
  When an update of \<^verbatim>\<open>users\<close> is accepted: the new row is one the table
  holds, and it keeps the email of the old one.
\<close>

lemma update_users_accepted:
  assumes "valid_db d" "select_by user_id uid (users d) = Some u" "user_ok (upd u)"
    "email (upd u) = email u"
  shows "\<exists>d'. update_users d uid upd now = Inr d'"
proof -
  let ?new = "(upd u)\<lparr>user_id := uid\<rparr>"
  have u: "u \<in> set (users d)" "user_id u = uid" using select_by_Some [OF assms(2)] by simp_all
  have "user_ok ?new" using assms(3) by (simp add: user_ok_def)
  note acc = user_ok_accepted [OF this]
  have check: "users_check (update_users_updated_at now ?new) = None"
    using assms(3) unfolding users_check_def update_users_updated_at_def user_ok_def by simp
  have "email ?new = email u" using assms(4) by simp
  then show ?thesis
    using assms(2,4) acc(1) check unfolding update_users_def
    by (simp add: Let_def) (simp add: update_users_updated_at_def)
qed

text \<open>
  C1 (as the tables have it). Whatever a stop does about a session charge larger than
  the balance, it commits no negative balance. For every account: an update that would
  leave \<^verbatim>\<open>credits\<close> below zero is refused
  (\<^verbatim>\<open>chk_users_credits_positive\<close>); an update that commits leaves the balance
  it assigns, which is zero or more, or \<^verbatim>\<open>NULL\<close>; an update to any balance of
  zero or more that fits the column is accepted; and in every history of statements no
  account ever holds a negative balance.
\<close>

theorem committed_balance_nonnegative:
  assumes "select_by user_id uid (users d) = Some u"
  shows "(\<forall>b. credits (upd u) = Some b \<and> b < 0 \<longrightarrow> isl (update_users d uid upd now))
       \<and> (\<forall>d'. update_users d uid upd now = Inr d' \<longrightarrow>
             credits_of d' uid = credits (upd u)
             \<and> null_or (\<lambda>b. 0 \<le> b) (credits_of d' uid))
       \<and> (valid_db d \<and> 0 \<le> c \<and> numeric_fits 10 c \<longrightarrow>
             (\<exists>d'. update_users d uid (\<lambda>r. r\<lparr>credits := Some c\<rparr>) now = Inr d'
                    \<and> credits_of d' uid = Some c))
       \<and> (\<forall>x \<in> set (users (run empty_db h)). null_or (\<lambda>b. 0 \<le> b) (credits x))"
proof -
  have committed: "credits_of d' uid = credits (upd u)
             \<and> null_or (\<lambda>b. 0 \<le> b) (credits_of d' uid)"
    if w: "update_users d uid upd now = Inr d'" for d' upd
  proof -
    from update_users_row [OF w assms] have "credits_of d' uid = credits (upd u)"
      by (auto simp: credits_of_def)
    then show ?thesis using update_users_checked [OF w assms] by simp
  qed
  have refused: "isl (update_users d uid upd now)" if "credits (upd u) = Some b" "b < 0" for b
  proof (cases "update_users d uid upd now")
    case (Inl e)
    then show ?thesis by simp
  next
    case (Inr d')
    then show ?thesis using committed [OF Inr] that by (auto simp: null_or_def)
  qed
  have accepted: "\<exists>d'. update_users d uid (\<lambda>r. r\<lparr>credits := Some c\<rparr>) now = Inr d'
                    \<and> credits_of d' uid = Some c"
    if v: "valid_db d" and c: "0 \<le> c" "numeric_fits 10 c"
  proof -
    have "user_ok u" using valid_db_user [OF v] select_by_Some [OF assms] by blast
    then have "user_ok (u\<lparr>credits := Some c\<rparr>)" using c by (simp add: user_ok_def null_or_def)
    then have "\<exists>d'. update_users d uid (\<lambda>r. r\<lparr>credits := Some c\<rparr>) now = Inr d'"
      by (intro update_users_accepted [OF v assms]) simp_all
    then obtain d' where d': "update_users d uid (\<lambda>r. r\<lparr>credits := Some c\<rparr>) now = Inr d'"
      by blast
    then show ?thesis using committed [OF d'] by simp
  qed
  have "\<forall>x \<in> set (users (run empty_db h)). null_or (\<lambda>b. 0 \<le> b) (credits x)"
    using valid_db_user [OF reachable_valid] unfolding user_ok_def by blast
  then show ?thesis using committed refused accepted by blast
qed

theorem committed_balance_nonnegative_witness:
  "credits_of sample_db 1 = Some 5000
   \<and> (case update_users sample_db 1 (\<lambda>r. r\<lparr>credits := Some 0\<rparr>) 9 of
        Inl e \<Rightarrow> False
      | Inr d' \<Rightarrow> credits_of d' 1 = Some 0)
   \<and> isl (update_users sample_db 1 (\<lambda>r. r\<lparr>credits := Some (- 5)\<rparr>) 9)"
proof -
  have c0: "credits_of sample_db 1 = Some 5000" by code_simp
  have v: "valid_db sample_db" unfolding sample_db_def by (rule run_valid [OF empty_db_valid])
  obtain u where u: "select_by user_id 1 (users sample_db) = Some u"
    using c0 by (auto simp: credits_of_def split: option.splits)
  have fits: "numeric_fits 10 0" by (simp add: numeric_fits_def)
  have "\<exists>d'. update_users sample_db 1 (\<lambda>r. r\<lparr>credits := Some 0\<rparr>) 9 = Inr d'
            \<and> credits_of d' 1 = Some 0"
    using committed_balance_nonnegative [OF u, of "\<lambda>r. r" 9 0 "[]"] v fits by simp
  moreover have "isl (update_users sample_db 1 (\<lambda>r. r\<lparr>credits := Some (- 5)\<rparr>) 9)"
    using committed_balance_nonnegative [OF u, of "\<lambda>r. r\<lparr>credits := Some (- 5)\<rparr>" 9 0 "[]"]
    by simp
  ultimately show ?thesis using c0 by auto
qed

text \<open>
  A small VM of a new account (balance 50.00) that ran 1001 hours: the session costs
  50.05, and the write that would leave the balance at -0.05 is rejected by the check on
  \<^verbatim>\<open>credits\<close>. The committed balance is still 50.00.
\<close>

theorem negative_balance_counterexample:
  "map status (vms sample_db) = [''running''] \<and> credits_of sample_db 1 = Some 5000
   \<and> hours_cost 100100 500 = 5005
   \<and> update_users sample_db 1 (\<lambda>u. u\<lparr>credits := Some (5000 - 5005)\<rparr>) 9
     = Inl (CheckViolation ''chk_users_credits_positive'')
   \<and> map credits (users (commit sample_db
        (UpdateUser 1 (\<lambda>u. u\<lparr>credits := Some (5000 - 5005)\<rparr>)) 9)) = [Some 5000]"
  by code_simp

subsection \<open>The status column\<close>

text \<open>
  The tables themselves hold no state table: the check on \<^verbatim>\<open>status\<close> only
  names the five values, so an update from \<^verbatim>\<open>terminated\<close> back to
  \<^verbatim>\<open>running\<close> is accepted, and logged as a transition. Whatever keeps the
  lifecycle to its table is the orchestrator.
\<close>

lemma status_check_is_not_a_state_table:
  "map status (vms (run sample_db
      [(UpdateVM 1 (\<lambda>r. r\<lparr>status := ''terminated''\<rparr>), 4),
       (UpdateVM 1 (\<lambda>r. r\<lparr>status := ''running''\<rparr>), 5)])) = [''running'']
   \<and> map (\<lambda>t. (from_status t, to_status t))
       (vm_state_transitions (run sample_db
          [(UpdateVM 1 (\<lambda>r. r\<lparr>status := ''terminated''\<rparr>), 4),
           (UpdateVM 1 (\<lambda>r. r\<lparr>status := ''running''\<rparr>), 5)]))
     = [(Some ''running'', ''terminated''), (Some ''terminated'', ''running'')]"
  by code_simp

subsection \<open>Statements that assign the class or the total\<close>

text \<open>
  Two statements outside the histories above, for contrast. An update that assigns the
  instance type makes the trigger assign the rate of the new class; and an update that
  assigns \<^verbatim>\<open>total_spent\<close> itself may lower it, since the check on the column
  only asks for a value that is not negative.
\<close>

lemma class_change_changes_rate:
  "map (\<lambda>r. (instance_type r, cost_per_hour r))
     (vms (run sample_db [(UpdateVM 1 (\<lambda>r. r\<lparr>instance_type := ''large''\<rparr>), 4)]))
   = [(''large'', 2000)]"
  by code_simp

lemma total_spent_assignment_lowers:
  "total_spent_of (run sample_db [(InsertBilling sample_entry, 5)]) 1 = Some 10
   \<and> total_spent_of
       (run sample_db [(InsertBilling sample_entry, 5),
                       (UpdateUser 1 (\<lambda>u. u\<lparr>total_spent := Some 0\<rparr>), 6)]) 1 = Some 0"
  by code_simp

end
